theory Spec2Isabelle
  imports Complex_Main "HOL-Library.Word" "HOL-Library.AList"
begin

unbundle bit_operations_syntax

section \<open>Patch optical flow: data model\<close>

text \<open>
  The development embeds \<^verbatim>\<open>PatchOpticalFlow\<close> of
  \<^verbatim>\<open>include/basalt/optical_flow/patch_optical_flow.h\<close>.

  Numbers. \<^verbatim>\<open>Scalar\<close> is \<^verbatim>\<open>float\<close>. Pixel coordinates and the entries of a warp are
  modelled as \<open>real\<close>: rounding is not modelled. The one place where the source
  inspects whether a float is finite is the Gauss-Newton increment, so the values it is
  computed from (the stored patch matrix and the residual) are of type \<open>fl\<close>: a finite
  real, or \<open>None\<close> for an infinity or a NaN. A sum or product with a non-finite operand
  is non-finite. C++ \<^verbatim>\<open>int\<close> values are \<open>int\<close>; \<^verbatim>\<open>size_t\<close> and
  \<^verbatim>\<open>KeypointId\<close> are 64-bit words.
\<close>

type_synonym vec2 = "real \<times> real"
type_synonym mat2 = "vec2 \<times> vec2"
type_synonym fl = "real option"

definition vadd :: "vec2 \<Rightarrow> vec2 \<Rightarrow> vec2" where
  "vadd a b = (fst a + fst b, snd a + snd b)"

definition vsub :: "vec2 \<Rightarrow> vec2 \<Rightarrow> vec2" where
  "vsub a b = (fst a - fst b, snd a - snd b)"

definition vdiv :: "vec2 \<Rightarrow> real \<Rightarrow> vec2" where
  "vdiv a s = (fst a / s, snd a / s)"

definition vmul :: "vec2 \<Rightarrow> real \<Rightarrow> vec2" where
  "vmul a s = (fst a * s, snd a * s)"

definition squaredNorm :: "vec2 \<Rightarrow> real" where
  "squaredNorm a = fst a * fst a + snd a * snd a"

text \<open>A 2x2 matrix is the pair of its rows.\<close>

definition mat2_vec :: "mat2 \<Rightarrow> vec2 \<Rightarrow> vec2" where
  "mat2_vec m v =
     (fst (fst m) * fst v + snd (fst m) * snd v, fst (snd m) * fst v + snd (snd m) * snd v)"

definition mat2_mul :: "mat2 \<Rightarrow> mat2 \<Rightarrow> mat2" where
  "mat2_mul a b =
     ((fst (fst a) * fst (fst b) + snd (fst a) * fst (snd b),
       fst (fst a) * snd (fst b) + snd (fst a) * snd (snd b)),
      (fst (snd a) * fst (fst b) + snd (snd a) * fst (snd b),
       fst (snd a) * snd (fst b) + snd (snd a) * snd (snd b)))"

definition mat2_identity :: mat2 where
  "mat2_identity = ((1, 0), (0, 1))"

text \<open>\<^verbatim>\<open>Eigen::AffineCompact2f\<close>: a 2x2 linear part and a translation.\<close>

record transform =
  linear :: mat2
  translation :: vec2

text \<open>
  \<^verbatim>\<open>transform *= M\<close> for a 3x3 matrix \<^verbatim>\<open>M\<close> whose upper 2x3 block is \<open>(R | t)\<close>:
  Eigen computes \<^verbatim>\<open>T.linear * (R | t)\<close> and adds \<^verbatim>\<open>T.translation\<close> to the last column.
\<close>

definition compose_right :: "transform \<Rightarrow> mat2 \<times> vec2 \<Rightarrow> transform" where
  "compose_right T M =
     \<lparr>linear = mat2_mul (linear T) (fst M),
      translation = vadd (mat2_vec (linear T) (snd M)) (translation T)\<rparr>"

subsection \<open>Floats that may be non-finite\<close>

definition fl_neg :: "fl \<Rightarrow> fl" where
  "fl_neg a = map_option uminus a"

definition fl_add :: "fl \<Rightarrow> fl \<Rightarrow> fl" where
  "fl_add a b = (case a of None \<Rightarrow> None | Some x \<Rightarrow> (case b of None \<Rightarrow> None | Some y \<Rightarrow> Some (x + y)))"

definition fl_mul :: "fl \<Rightarrow> fl \<Rightarrow> fl" where
  "fl_mul a b = (case a of None \<Rightarrow> None | Some x \<Rightarrow> (case b of None \<Rightarrow> None | Some y \<Rightarrow> Some (x * y)))"

definition fl_dot :: "fl list \<Rightarrow> fl list \<Rightarrow> fl" where
  "fl_dot a b = foldl fl_add (Some 0) (map2 fl_mul a b)"

text \<open>\<^verbatim>\<open>-M * v\<close>: the negated matrix (a list of rows) times a vector.\<close>

definition neg_mat_vec :: "fl list list \<Rightarrow> fl list \<Rightarrow> fl list" where
  "neg_mat_vec m v = map (\<lambda>row. fl_dot (map fl_neg row) v) m"

text \<open>\<^verbatim>\<open>inc.array().isFinite().all()\<close>\<close>

definition isFinite_all :: "fl list \<Rightarrow> bool" where
  "isFinite_all v = list_all (\<lambda>c. c \<noteq> None) v"

text \<open>
  \<^verbatim>\<open>inc.lpNorm<Eigen::Infinity>()\<close>: the largest absolute value of a component. With a
  non-finite component the norm is taken as non-finite; the source consults the
  comparison below only in conjunction with \<open>isFinite_all\<close>, so this choice is never
  observed.
\<close>

definition lpNorm_Infinity :: "fl list \<Rightarrow> fl" where
  "lpNorm_Infinity v =
     (if isFinite_all v then Some (foldl max 0 (map (\<lambda>c. \<bar>the c\<bar>) v)) else None)"

definition fl_less :: "fl \<Rightarrow> real \<Rightarrow> bool" where
  "fl_less a b = (case a of None \<Rightarrow> False | Some x \<Rightarrow> x < b)"

subsection \<open>Images, patches, configuration\<close>

text \<open>
  \<^verbatim>\<open>Image<const uint16_t>\<close>: width, height and the intensities. A pyramid
  (\<^verbatim>\<open>ManagedImagePyr<uint16_t>\<close>) is read through \<^verbatim>\<open>lvl\<close> only.
\<close>

record image =
  w :: nat
  h :: nat
  pixel :: "nat \<Rightarrow> nat \<Rightarrow> 16 word"

type_synonym pyramid = "nat \<Rightarrow> image"

definition lvl :: "pyramid \<Rightarrow> nat \<Rightarrow> image" where
  "lvl pyr l = pyr l"

text \<open>
  \<^verbatim>\<open>OpticalFlowPatch\<close> is declared in \<^verbatim>\<open>basalt/optical_flow/patch.h\<close>, which is not
  part of the sources at hand. The record has the members the tracker reads
  (\<^verbatim>\<open>valid\<close>, \<^verbatim>\<open>H_se2_inv_J_se2_T\<close>, a 3 x P matrix as a list of rows) and the sampled
  intensities with their mean.
\<close>

record patch =
  valid :: bool
  H_se2_inv_J_se2_T :: "fl list list"
  data :: "fl list"
  mean :: fl

datatype MatchingGuessType = SAME_PIXEL | REPROJ_FIX_DEPTH | REPROJ_AVG_DEPTH

text \<open>
  Modelled from the spec: \<^verbatim>\<open>VioConfig\<close> (its header is not part of the sources at
  hand), with the fields of section 6 of the specification that the tracker reads.
\<close>

record VioConfig =
  optical_flow_levels :: int
  optical_flow_max_iterations :: int
  optical_flow_max_recovered_dist2 :: real
  optical_flow_epipolar_error :: real
  optical_flow_skip_frames :: int
  optical_flow_detection_grid_size :: int
  optical_flow_detection_num_points_cell :: int
  optical_flow_detection_min_threshold :: int
  optical_flow_detection_max_threshold :: int
  optical_flow_matching_guess_type :: MatchingGuessType
  optical_flow_matching_default_depth :: real

text \<open>
  The functions the tracker calls whose definitions are outside the sources at hand are
  parameters of the model:
  \<^item> \<open>pattern2\<close>: \<^verbatim>\<open>PatchT::pattern2\<close>, the sample offsets, one per column;
  \<^item> \<open>residual\<close>: \<^verbatim>\<open>PatchT::residual(img, transformed_pat, res)\<close>; \<open>None\<close> when it
    returns false, otherwise the residual vector it wrote;
  \<^item> \<open>PatchT\<close>: the patch constructor \<^verbatim>\<open>PatchT(img, pos)\<close>;
  \<^item> \<open>SE2_exp\<close>: the rotation block and the translation column of
    \<^verbatim>\<open>Sophus::SE2::exp(inc).matrix()\<close>;
  \<^item> \<open>InBounds\<close>: \<^verbatim>\<open>Image::InBounds(p, border)\<close>;
  \<^item> \<open>setFromImage\<close>: \<^verbatim>\<open>ManagedImagePyr::setFromImage(img, levels)\<close>, as the pyramid
    it builds;
  \<^item> \<open>detectKeypoints\<close>, \<open>computeAngles\<close>, \<open>computeDescriptors\<close>: the detector of
    \<^verbatim>\<open>basalt/utils/keypoints.h\<close>, each returning the \<^verbatim>\<open>KeypointsData\<close> it fills.
\<close>

type_synonym Masks = "(real \<times> real \<times> real \<times> real) list"

record KeypointsData =
  corners :: "vec2 list"
  corner_angles :: "real list"
  corner_descriptors :: "bool list list"

record externals =
  pattern2 :: "vec2 list"
  residual :: "image \<Rightarrow> patch \<Rightarrow> vec2 list \<Rightarrow> fl list option"
  PatchT :: "image \<Rightarrow> vec2 \<Rightarrow> patch"
  SE2_exp :: "real list \<Rightarrow> mat2 \<times> vec2"
  InBounds :: "image \<Rightarrow> vec2 \<Rightarrow> real \<Rightarrow> bool"
  setFromImage :: "image \<Rightarrow> int \<Rightarrow> pyramid"
  detectKeypoints :: "image \<Rightarrow> int \<Rightarrow> int \<Rightarrow> int \<Rightarrow> int \<Rightarrow> Masks \<Rightarrow> vec2 list \<Rightarrow> KeypointsData"
  computeAngles :: "image \<Rightarrow> KeypointsData \<Rightarrow> bool \<Rightarrow> KeypointsData"
  computeDescriptors :: "image \<Rightarrow> KeypointsData \<Rightarrow> KeypointsData"

section \<open>The tracker\<close>

subsection \<open>trackPointAtLevel\<close>

text \<open>
  The loop of \<^verbatim>\<open>trackPointAtLevel\<close>, with its loop variable \<^verbatim>\<open>iteration\<close>, the flag
  \<^verbatim>\<open>patch_valid\<close> and the warp that is updated in place. It returns the flag, the
  warp and the final value of \<^verbatim>\<open>iteration\<close>.
\<close>

function trackPointAtLevel_loop ::
  "VioConfig \<Rightarrow> externals \<Rightarrow> image \<Rightarrow> patch \<Rightarrow> int \<Rightarrow> bool \<Rightarrow> transform \<Rightarrow> bool \<times> transform \<times> int"
where
  "trackPointAtLevel_loop config ext img_2 dp iteration patch_valid transform =
     (if patch_valid \<and> iteration < optical_flow_max_iterations config then
        (let transformed_pat =
               map (\<lambda>p. vadd (mat2_vec (linear transform) p) (translation transform)) (pattern2 ext)
         in case residual ext img_2 dp transformed_pat of
              None \<Rightarrow> trackPointAtLevel_loop config ext img_2 dp (iteration + 1) False transform
            | Some res \<Rightarrow>
                (let inc = neg_mat_vec (H_se2_inv_J_se2_T dp) res;
                     patch_valid1 = (patch_valid \<and> isFinite_all inc);
                     patch_valid2 = (patch_valid1 \<and> fl_less (lpNorm_Infinity inc) 1000000)
                 in if patch_valid2 then
                      (let transform1 = compose_right transform (SE2_exp ext (map the inc));
                           filter_margin = 2;
                           patch_valid3 =
                             (patch_valid2 \<and> InBounds ext img_2 (translation transform1) filter_margin)
                       in trackPointAtLevel_loop config ext img_2 dp (iteration + 1) patch_valid3 transform1)
                    else trackPointAtLevel_loop config ext img_2 dp (iteration + 1) patch_valid2 transform))
      else (patch_valid, transform, iteration))"
  by pat_completeness auto
termination
  by (relation "measure (\<lambda>(config, ext, img_2, dp, iteration, patch_valid, transform).
        nat (optical_flow_max_iterations config - iteration))") auto

definition trackPointAtLevel ::
  "VioConfig \<Rightarrow> externals \<Rightarrow> image \<Rightarrow> patch \<Rightarrow> transform \<Rightarrow> bool \<times> transform"
where
  "trackPointAtLevel config ext img_2 dp transform =
     (case trackPointAtLevel_loop config ext img_2 dp 0 True transform of
        (patch_valid, transform1, iteration) \<Rightarrow> (patch_valid, transform1))"

subsection \<open>trackPoint\<close>

text \<open>
  \<^verbatim>\<open>const Scalar scale = 1 << level\<close>: the shift is done on a 32-bit \<^verbatim>\<open>int\<close> and the
  result converted to float. For \<open>level\<close> from 0 to 30 this is \<open>2 ^ level\<close>. A shift by 32
  or more is undefined in C++; the word model gives 0 there, and the theorems below are
  stated for at most 30 levels.
\<close>

definition scale_of :: "int \<Rightarrow> real" where
  "scale_of level = real_of_int (sint (push_bit (nat level) (1 :: 32 word)))"

text \<open>
  The loop of \<^verbatim>\<open>trackPoint\<close>. \<^verbatim>\<open>patch_vec[level]\<close> on a stack that is too short is an
  out-of-range read of a \<^verbatim>\<open>std::vector\<close>: the model returns \<open>None\<close>.
\<close>

function trackPoint_loop ::
  "VioConfig \<Rightarrow> externals \<Rightarrow> pyramid \<Rightarrow> patch list \<Rightarrow> int \<Rightarrow> bool \<Rightarrow> transform
     \<Rightarrow> (bool \<times> transform) option"
where
  "trackPoint_loop config ext pyr patch_vec level patch_valid transform =
     (if level \<ge> 0 \<and> patch_valid then
        (let scale = scale_of level;
             transform1 = transform\<lparr>translation := vdiv (translation transform) scale\<rparr>
         in if length patch_vec \<le> nat level then None
            else
              (let p = patch_vec ! nat level;
                   patch_valid1 = (patch_valid \<and> valid p);
                   r = (if patch_valid1 then
                          (case trackPointAtLevel config ext (lvl pyr (nat level)) p transform1 of
                             (ok, transform2) \<Rightarrow> (patch_valid1 \<and> ok, transform2))
                        else (patch_valid1, transform1));
                   transform3 = (snd r)\<lparr>translation := vmul (translation (snd r)) scale\<rparr>
               in trackPoint_loop config ext pyr patch_vec (level - 1) (fst r) transform3))
      else Some (patch_valid, transform))"
  by pat_completeness auto
termination
  by (relation "measure (\<lambda>(config, ext, pyr, patch_vec, level, patch_valid, transform).
        nat (level + 1))") auto

definition trackPoint ::
  "VioConfig \<Rightarrow> externals \<Rightarrow> pyramid \<Rightarrow> patch list \<Rightarrow> transform \<Rightarrow> (bool \<times> transform) option"
where
  "trackPoint config ext pyr patch_vec transform =
     trackPoint_loop config ext pyr patch_vec (optical_flow_levels config) True transform"


section \<open>Tracker state\<close>

text \<open>
  \<^verbatim>\<open>KeypointId\<close> is \<^verbatim>\<open>size_t\<close>, 64 bits (the specification: "monotonic 64-bit"). A
  keypoint map (\<^verbatim>\<open>Keypoints\<close>) is an association list whose keys are distinct; it is
  read with \<open>map_of\<close>, so the order of its entries is never observed.
\<close>

type_synonym KeypointId = "64 word"

record Keypoint =
  pose :: transform
  descriptor :: "bool list"
  detected_by_opt_flow :: bool

type_synonym Keypoints = "(KeypointId \<times> Keypoint) list"

text \<open>
  \<^verbatim>\<open>OpticalFlowInput\<close>, the frame bundle: timestamp, one image pointer per camera (\<open>None\<close>
  is a null payload), the masks, the depth guess stored for the UI, and the labels passed
  to \<^verbatim>\<open>addTime\<close>. Bundles are shared through \<^verbatim>\<open>OpticalFlowInput::Ptr\<close>: the model
  keeps them in a store indexed by address, and a pointer is an address or null.
\<close>

record OpticalFlowInput =
  in_t_ns :: int
  img_data :: "image option list"
  masks :: "Masks list"
  in_depth_guess :: real
  timing :: "string list"

type_synonym input_ptr = nat
type_synonym input_store = "input_ptr \<rightharpoonup> OpticalFlowInput"

text \<open>\<^verbatim>\<open>OpticalFlowResult\<close>: timestamp, one keypoint map per camera, the retained input.\<close>

record OpticalFlowResult =
  res_t_ns :: int
  keypoints :: "Keypoints list"
  input_images :: "input_ptr option"

text \<open>
  \<^verbatim>\<open>Calibration\<close>: a camera of \<^verbatim>\<open>intrinsics\<close> is modelled by its \<^verbatim>\<open>unproject\<close>, which
  gives a 4-vector and a success flag for a pixel; \<^verbatim>\<open>viewOffset(p, depth, cam1, cam2)\<close>.
\<close>

type_synonym vec4 = "real list"

record Calibration =
  intrinsics :: "(vec2 \<Rightarrow> vec4 \<times> bool) list"
  viewOffset :: "vec2 \<Rightarrow> real \<Rightarrow> nat \<Rightarrow> nat \<Rightarrow> vec2"

text \<open>
  The data members of \<^verbatim>\<open>PatchOpticalFlow\<close> and of its base class that the worker
  touches. A result that was pushed to the output queue is never written again (the
  worker allocates a new result for each frame), so the queue holds result values;
  \<open>None\<close> in the queue is the null sentinel, and \<open>output_queue = None\<close> is an
  unattached queue.
\<close>

record PatchOpticalFlow =
  t_ns :: int
  frame_counter :: "64 word"
  last_keypoint_id :: KeypointId
  patches :: "KeypointId \<rightharpoonup> patch list"
  transforms :: "OpticalFlowResult option"
  old_pyramid :: "pyramid list option"
  pyramid :: "pyramid list option"
  E :: "real list list"
  depth_guess :: real
  output_queue :: "OpticalFlowResult option list option"

text \<open>The state the constructor leaves (the essential matrix is passed in).\<close>

definition PatchOpticalFlow_init :: "VioConfig \<Rightarrow> real list list \<Rightarrow> PatchOpticalFlow" where
  "PatchOpticalFlow_init config E0 =
     \<lparr>t_ns = - 1, frame_counter = 0, last_keypoint_id = 0, patches = Map.empty,
      transforms = None, old_pyramid = None, pyramid = None, E = E0,
      depth_guess = optical_flow_matching_default_depth config, output_queue = None\<rparr>"

section \<open>trackPoints\<close>

text \<open>
  The body of the lambda \<^verbatim>\<open>compute_func\<close> for one keypoint. The outer \<open>None\<close> is an
  exception or undefined behaviour (\<^verbatim>\<open>patches.at(id)\<close> on a missing id, a patch stack
  that is too short); \<open>Some None\<close> is \<^verbatim>\<open>continue\<close> or a rejected match; \<open>Some (Some k)\<close>
  is the entry written to \<^verbatim>\<open>result[id]\<close>.
\<close>

definition compute_func_body ::
  "VioConfig \<Rightarrow> Calibration \<Rightarrow> externals \<Rightarrow> (KeypointId \<rightharpoonup> patch list) \<Rightarrow> real
     \<Rightarrow> pyramid \<Rightarrow> pyramid \<Rightarrow> nat \<Rightarrow> nat \<Rightarrow> KeypointId \<Rightarrow> Keypoint \<Rightarrow> Keypoint option option"
where
  "compute_func_body config calib ext patches0 depth pyr_1 pyr_2 cam1 cam2 kp_id init =
     (let matching = (cam1 \<noteq> cam2);
          guess_type = optical_flow_matching_guess_type config;
          guess_requires_depth = (guess_type \<noteq> SAME_PIXEL);
          use_depth = (matching \<and> guess_requires_depth);
          transform_1 = pose init;
          t1 = translation transform_1;
          off = (if use_depth then viewOffset calib t1 depth cam1 cam2 else (0, 0));
          transform_2 = transform_1\<lparr>translation := vsub (translation transform_1) off\<rparr>;
          t2 = translation transform_2;
          valid0 = (fst t2 \<ge> 0 \<and> snd t2 \<ge> 0 \<and> fst t2 < real (w (lvl pyr_2 0))
                    \<and> snd t2 < real (h (lvl pyr_2 0)))
      in if \<not> valid0 then Some None
         else (case patches0 kp_id of
                 None \<Rightarrow> None
               | Some patch_vec \<Rightarrow>
                   (case trackPoint config ext pyr_2 patch_vec transform_2 of
                      None \<Rightarrow> None
                    | Some (valid1, transform_2a) \<Rightarrow>
                        if \<not> valid1 then Some None
                        else
                          (let transform_1_recovered =
                                 transform_2a\<lparr>translation := vadd (translation transform_2a) off\<rparr>
                           in case trackPoint config ext pyr_1 patch_vec transform_1_recovered of
                                None \<Rightarrow> None
                              | Some (valid2, transform_1_rec) \<Rightarrow>
                                  if \<not> valid2 then Some None
                                  else
                                    (let dist2 = squaredNorm (vsub t1 (translation transform_1_rec))
                                     in if dist2 < optical_flow_max_recovered_dist2 config
                                        then Some (Some \<lparr>pose = transform_2a,
                                                         descriptor = descriptor init,
                                                         detected_by_opt_flow = True\<rparr>)
                                        else Some None)))))"

text \<open>
  The range loop of \<^verbatim>\<open>compute_func\<close>. \<^verbatim>\<open>tbb::parallel_for\<close> runs the iterations in any
  order; each one reads shared data only and writes the entry of its own id, so the
  sequential loop has the same result.
\<close>

fun compute_func ::
  "VioConfig \<Rightarrow> Calibration \<Rightarrow> externals \<Rightarrow> (KeypointId \<rightharpoonup> patch list) \<Rightarrow> real
     \<Rightarrow> pyramid \<Rightarrow> pyramid \<Rightarrow> nat \<Rightarrow> nat \<Rightarrow> (KeypointId \<times> Keypoint) list \<Rightarrow> Keypoints
     \<Rightarrow> Keypoints option"
where
  "compute_func config calib ext patches0 depth pyr_1 pyr_2 cam1 cam2 [] result = Some result"
| "compute_func config calib ext patches0 depth pyr_1 pyr_2 cam1 cam2 ((kp_id, init) # rest) result =
     (case compute_func_body config calib ext patches0 depth pyr_1 pyr_2 cam1 cam2 kp_id init of
        None \<Rightarrow> None
      | Some None \<Rightarrow> compute_func config calib ext patches0 depth pyr_1 pyr_2 cam1 cam2 rest result
      | Some (Some k) \<Rightarrow>
          compute_func config calib ext patches0 depth pyr_1 pyr_2 cam1 cam2 rest
            (AList.update kp_id k result))"

text \<open>
  \<^verbatim>\<open>transforms->input_images->depth_guess = depth\<close>: a write through two pointers; a null
  pointer there is \<open>None\<close>.
\<close>

definition store_depth_guess ::
  "PatchOpticalFlow \<Rightarrow> input_store \<Rightarrow> real \<Rightarrow> input_store option"
where
  "store_depth_guess this store depth =
     (case transforms this of
        None \<Rightarrow> None
      | Some tr \<Rightarrow>
          (case input_images tr of
             None \<Rightarrow> None
           | Some ptr \<Rightarrow>
               (case store ptr of
                  None \<Rightarrow> None
                | Some bundle \<Rightarrow> Some (store(ptr \<mapsto> bundle\<lparr>in_depth_guess := depth\<rparr>)))))"

definition trackPoints ::
  "VioConfig \<Rightarrow> Calibration \<Rightarrow> externals \<Rightarrow> PatchOpticalFlow \<Rightarrow> input_store
     \<Rightarrow> pyramid \<Rightarrow> pyramid \<Rightarrow> Keypoints \<Rightarrow> nat \<Rightarrow> nat \<Rightarrow> (Keypoints \<times> input_store) option"
where
  "trackPoints config calib ext this store pyr_1 pyr_2 keypoint_map_1 cam1 cam2 =
     (let depth = depth_guess this
      in case store_depth_guess this store depth of
           None \<Rightarrow> None
         | Some store1 \<Rightarrow>
             (case compute_func config calib ext (patches this) depth pyr_1 pyr_2 cam1 cam2
                     keypoint_map_1 [] of
                None \<Rightarrow> None
              | Some keypoint_map_2 \<Rightarrow> Some (keypoint_map_2, store1)))"


section \<open>addPoints\<close>

text \<open>
  The inner loop over the levels: \<^verbatim>\<open>p.emplace_back(pyramid->at(0).lvl(l), pos / scale)\<close>
  for \<open>l\<close> from 0 to \<^verbatim>\<open>optical_flow_levels\<close>, as the list of the patches appended.
\<close>

definition patch_stack :: "VioConfig \<Rightarrow> externals \<Rightarrow> pyramid \<Rightarrow> vec2 \<Rightarrow> patch list" where
  "patch_stack config ext pyr0 pos =
     map (\<lambda>l. PatchT ext (lvl pyr0 (nat l)) (vdiv pos (scale_of l)))
       [0..optical_flow_levels config]"

text \<open>
  The loop over the detected corners, on the members it updates: the patch store, the
  keypoint map of camera 0, \<^verbatim>\<open>new_kpts0\<close> and \<^verbatim>\<open>last_keypoint_id\<close>.
  \<^verbatim>\<open>patches[last_keypoint_id]\<close> is \<^verbatim>\<open>operator[]\<close>: the stored stack, or a new empty one.
  \<^verbatim>\<open>kd.corner_descriptors[i]\<close> out of range is \<open>None\<close>.
\<close>

fun addPoints_loop ::
  "VioConfig \<Rightarrow> externals \<Rightarrow> pyramid \<Rightarrow> KeypointsData \<Rightarrow> nat list
     \<Rightarrow> (KeypointId \<rightharpoonup> patch list) \<times> Keypoints \<times> Keypoints \<times> KeypointId
     \<Rightarrow> ((KeypointId \<rightharpoonup> patch list) \<times> Keypoints \<times> Keypoints \<times> KeypointId) option"
where
  "addPoints_loop config ext pyr0 kd [] acc = Some acc"
| "addPoints_loop config ext pyr0 kd (i # rest) (patches0, kpts0, new_kpts0, last_id) =
     (if length (corner_descriptors kd) \<le> i then None
      else
        (let p = (case patches0 last_id of None \<Rightarrow> [] | Some stack \<Rightarrow> stack);
             pos = corners kd ! i;
             p1 = p @ patch_stack config ext pyr0 pos;
             transform = \<lparr>linear = mat2_identity, translation = corners kd ! i\<rparr>;
             k = \<lparr>pose = transform, descriptor = corner_descriptors kd ! i,
                  detected_by_opt_flow = False\<rparr>
         in addPoints_loop config ext pyr0 kd rest
              (patches0(last_id \<mapsto> p1), AList.update last_id k kpts0,
               AList.update last_id k new_kpts0, last_id + 1)))"

text \<open>
  The three calls that fill \<^verbatim>\<open>kd\<close>: \<^verbatim>\<open>detectKeypoints\<close>, \<^verbatim>\<open>computeAngles\<close>,
  \<^verbatim>\<open>computeDescriptors\<close>, on the level-0 image of camera 0.
\<close>

definition detect_new_keypoints ::
  "VioConfig \<Rightarrow> externals \<Rightarrow> image \<Rightarrow> Masks \<Rightarrow> vec2 list \<Rightarrow> KeypointsData"
where
  "detect_new_keypoints config ext img0 masks0 pts0 =
     (let kd0 = detectKeypoints ext img0
                  (optical_flow_detection_grid_size config)
                  (optical_flow_detection_num_points_cell config)
                  (optical_flow_detection_min_threshold config)
                  (optical_flow_detection_max_threshold config)
                  masks0 pts0;
          kd1 = computeAngles ext img0 kd0 True
      in computeDescriptors ext img0 kd1)"

text \<open>The first part of \<^verbatim>\<open>addPoints\<close>: detection, ids and patch stacks (up to line 368).\<close>

definition addPoints_detect ::
  "VioConfig \<Rightarrow> externals \<Rightarrow> PatchOpticalFlow \<Rightarrow> input_store
     \<Rightarrow> (PatchOpticalFlow \<times> Keypoints) option"
where
  "addPoints_detect config ext this store =
     (case transforms this of
        None \<Rightarrow> None
      | Some tr \<Rightarrow>
          if keypoints tr = [] then None
          else
            (case pyramid this of
               None \<Rightarrow> None
             | Some pyrs \<Rightarrow>
                 if pyrs = [] then None
                 else
                   (case input_images tr of
                      None \<Rightarrow> None
                    | Some ptr \<Rightarrow>
                        (case store ptr of
                           None \<Rightarrow> None
                         | Some bundle \<Rightarrow>
                             if masks bundle = [] then None
                             else
                               (let pts0 = map (\<lambda>kv. translation (pose (snd kv))) (keypoints tr ! 0);
                                    kd = detect_new_keypoints config ext (lvl (pyrs ! 0) 0)
                                           (masks bundle ! 0) pts0
                                in case addPoints_loop config ext (pyrs ! 0) kd
                                          [0..<length (corners kd)]
                                          (patches this, keypoints tr ! 0, [], last_keypoint_id this) of
                                     None \<Rightarrow> None
                                   | Some (patches1, kpts0, new_kpts0, last_id) \<Rightarrow>
                                       Some (this\<lparr>patches := patches1, last_keypoint_id := last_id,
                                                  transforms :=
                                                    Some (tr\<lparr>keypoints := (keypoints tr)[0 := kpts0]\<rparr>)\<rparr>,
                                             new_kpts0))))))"

text \<open>\<^verbatim>\<open>map.emplace(kv)\<close>: inserts unless the key is present.\<close>

definition emplace :: "KeypointId \<times> Keypoint \<Rightarrow> Keypoints \<Rightarrow> Keypoints" where
  "emplace kv m = (case map_of m (fst kv) of None \<Rightarrow> m @ [kv] | Some k \<Rightarrow> m)"

text \<open>The second part of \<^verbatim>\<open>addPoints\<close>: stereo seeding (lines 370 to 376).\<close>

definition addPoints_stereo ::
  "VioConfig \<Rightarrow> Calibration \<Rightarrow> externals \<Rightarrow> PatchOpticalFlow \<Rightarrow> input_store \<Rightarrow> Keypoints
     \<Rightarrow> (PatchOpticalFlow \<times> input_store) option"
where
  "addPoints_stereo config calib ext this store new_kpts0 =
     (if length (intrinsics calib) > 1 then
        (case pyramid this of
           None \<Rightarrow> None
         | Some pyrs \<Rightarrow>
             if length pyrs < 2 then None
             else
               (case trackPoints config calib ext this store (pyrs ! 0) (pyrs ! 1) new_kpts0 0 1 of
                  None \<Rightarrow> None
                | Some (new_kpts1, store1) \<Rightarrow>
                    (case transforms this of
                       None \<Rightarrow> None
                     | Some tr \<Rightarrow>
                         if length (keypoints tr) < 2 then None
                         else Some (this\<lparr>transforms :=
                                      Some (tr\<lparr>keypoints := (keypoints tr)
                                               [1 := foldl (\<lambda>m kv. emplace kv m) (keypoints tr ! 1) new_kpts1]\<rparr>)\<rparr>,
                                    store1))))
      else Some (this, store))"

definition addPoints ::
  "VioConfig \<Rightarrow> Calibration \<Rightarrow> externals \<Rightarrow> PatchOpticalFlow \<Rightarrow> input_store
     \<Rightarrow> (PatchOpticalFlow \<times> input_store) option"
where
  "addPoints config calib ext this store =
     (case addPoints_detect config ext this store of
        None \<Rightarrow> None
      | Some (this1, new_kpts0) \<Rightarrow> addPoints_stereo config calib ext this1 store new_kpts0)"

section \<open>filterPoints\<close>

definition dot :: "real list \<Rightarrow> real list \<Rightarrow> real" where
  "dot a b = sum_list (map2 (*) a b)"

text \<open>\<^verbatim>\<open>std::abs(p3d0[i].transpose() * E * p3d1[i])\<close>\<close>

definition epipolar_residual :: "real list list \<Rightarrow> vec4 \<Rightarrow> vec4 \<Rightarrow> real" where
  "epipolar_residual E0 f0 f1 = \<bar>dot f0 (map (\<lambda>row. dot row f1) E0)\<bar>"

text \<open>
  \<^verbatim>\<open>for (int id : lm_to_remove) ...erase(id)\<close>: the 64-bit id is converted to a 32-bit
  \<^verbatim>\<open>int\<close>, and the \<^verbatim>\<open>int\<close> back to the 64-bit key type (with sign extension) for
  \<^verbatim>\<open>erase\<close>.
\<close>

definition id_through_int :: "KeypointId \<Rightarrow> KeypointId" where
  "id_through_int lm = scast (ucast lm :: 32 word)"

text \<open>
  The three parallel vectors \<^verbatim>\<open>kpid\<close>, \<^verbatim>\<open>proj0\<close>, \<^verbatim>\<open>proj1\<close> are one list of triples.
\<close>

definition common_observations :: "Keypoints \<Rightarrow> Keypoints \<Rightarrow> (KeypointId \<times> vec2 \<times> vec2) list" where
  "common_observations kpts0 kpts1 =
     concat (map (\<lambda>kv. case map_of kpts0 (fst kv) of
                          None \<Rightarrow> []
                        | Some k0 \<Rightarrow> [(fst kv, translation (pose k0), translation (pose (snd kv)))])
                 kpts1)"

definition to_remove ::
  "VioConfig \<Rightarrow> Calibration \<Rightarrow> real list list \<Rightarrow> KeypointId \<times> vec2 \<times> vec2 \<Rightarrow> bool"
where
  "to_remove config calib E0 obs =
     (let p3d0 = (intrinsics calib ! 0) (fst (snd obs));
          p3d1 = (intrinsics calib ! 1) (snd (snd obs))
      in if snd p3d0 \<and> snd p3d1 then
           epipolar_residual E0 (fst p3d0) (fst p3d1) > optical_flow_epipolar_error config
         else True)"

definition filterPoints ::
  "VioConfig \<Rightarrow> Calibration \<Rightarrow> PatchOpticalFlow \<Rightarrow> PatchOpticalFlow option"
where
  "filterPoints config calib this =
     (if length (intrinsics calib) < 2 then Some this
      else
        (case transforms this of
           None \<Rightarrow> None
         | Some tr \<Rightarrow>
             if length (keypoints tr) < 2 then None
             else
               (let obs = common_observations (keypoints tr ! 0) (keypoints tr ! 1);
                    lm_to_remove = map fst (filter (to_remove config calib (E this)) obs);
                    kpts1 = foldl (\<lambda>m lm. AList.delete (id_through_int lm) m)
                              (keypoints tr ! 1) lm_to_remove
                in Some (this\<lparr>transforms := Some (tr\<lparr>keypoints := (keypoints tr)[1 := kpts1]\<rparr>)\<rparr>))))"

section \<open>processFrame and processingLoop\<close>

text \<open>
  The pyramids of all cameras. \<^verbatim>\<open>new_img_vec->img_data[i]\<close> beyond the end of the
  vector is \<open>None\<close>.
\<close>

definition build_pyramids ::
  "VioConfig \<Rightarrow> Calibration \<Rightarrow> externals \<Rightarrow> OpticalFlowInput \<Rightarrow> pyramid list option"
where
  "build_pyramids config calib ext bundle =
     (if length (img_data bundle) < length (intrinsics calib) then None
      else those (map (\<lambda>i. map_option (\<lambda>img. setFromImage ext img (optical_flow_levels config))
                              (img_data bundle ! i))
                   [0..<length (intrinsics calib)]))"

text \<open>
  The loop of temporal tracking, camera by camera. \<open>this\<close> still holds the previous
  frame's result in \<open>transforms\<close>; \<open>kps\<close> is \<^verbatim>\<open>new_transforms->keypoints\<close>.
\<close>

fun track_cameras ::
  "VioConfig \<Rightarrow> Calibration \<Rightarrow> externals \<Rightarrow> PatchOpticalFlow \<Rightarrow> pyramid list \<Rightarrow> pyramid list
     \<Rightarrow> Keypoints list \<Rightarrow> nat list \<Rightarrow> Keypoints list \<times> input_store
     \<Rightarrow> (Keypoints list \<times> input_store) option"
where
  "track_cameras config calib ext this old_pyrs pyrs old_kps [] acc = Some acc"
| "track_cameras config calib ext this old_pyrs pyrs old_kps (i # rest) (kps, store) =
     (if length old_pyrs \<le> i \<or> length pyrs \<le> i \<or> length old_kps \<le> i \<or> length kps \<le> i then None
      else
        (case trackPoints config calib ext this store (old_pyrs ! i) (pyrs ! i) (old_kps ! i) i i of
           None \<Rightarrow> None
         | Some (keypoint_map_2, store1) \<Rightarrow>
             track_cameras config calib ext this old_pyrs pyrs old_kps rest
               (kps[i := keypoint_map_2], store1)))"

text \<open>
  Lines 177 to 181: the push and the increment of \<^verbatim>\<open>frame_counter\<close>. The \<^verbatim>\<open>int\<close>
  \<^verbatim>\<open>optical_flow_skip_frames\<close> is converted to \<^verbatim>\<open>size_t\<close> for \<^verbatim>\<open>%\<close>; a zero divisor is
  \<open>None\<close>. With no queue attached the remainder is not computed.
\<close>

definition processFrame_emit ::
  "VioConfig \<Rightarrow> PatchOpticalFlow \<Rightarrow> input_store \<Rightarrow> (PatchOpticalFlow \<times> input_store) option"
where
  "processFrame_emit config this store =
     (case output_queue this of
        None \<Rightarrow> Some (this\<lparr>frame_counter := frame_counter this + 1\<rparr>, store)
      | Some q \<Rightarrow>
          if (word_of_int (optical_flow_skip_frames config) :: 64 word) = 0 then None
          else if frame_counter this mod word_of_int (optical_flow_skip_frames config) = 0 then
            (case transforms this of
               None \<Rightarrow> None
             | Some tr \<Rightarrow>
                 (case input_images tr of
                    None \<Rightarrow> None
                  | Some ptr \<Rightarrow>
                      (case store ptr of
                         None \<Rightarrow> None
                       | Some bundle \<Rightarrow>
                           Some (this\<lparr>output_queue := Some (q @ [Some tr]),
                                      frame_counter := frame_counter this + 1\<rparr>,
                                 store(ptr \<mapsto> bundle\<lparr>timing := timing bundle @ [''opticalflow_produced'']\<rparr>)))))
          else Some (this\<lparr>frame_counter := frame_counter this + 1\<rparr>, store))"

text \<open>
  The two branches of \<^verbatim>\<open>processFrame\<close>, up to their calls of \<^verbatim>\<open>addPoints\<close>: the first
  frame (\<^verbatim>\<open>t_ns < 0\<close>) allocates the result; a later frame tracks the keypoints of every
  camera from the old pyramid to the new one into a new result. \<open>pyrs\<close> are the
  pyramids built from the frame.
\<close>

definition processFrame_branch ::
  "VioConfig \<Rightarrow> Calibration \<Rightarrow> externals \<Rightarrow> PatchOpticalFlow \<Rightarrow> input_store \<Rightarrow> int \<Rightarrow> input_ptr
     \<Rightarrow> OpticalFlowInput \<Rightarrow> pyramid list \<Rightarrow> (PatchOpticalFlow \<times> input_store) option"
where
  "processFrame_branch config calib ext this store curr_t_ns new_img_vec bundle pyrs =
     (if t_ns this < 0 then
        Some (this\<lparr>t_ns := curr_t_ns,
                   transforms := Some \<lparr>res_t_ns = curr_t_ns,
                      keypoints = replicate (length (intrinsics calib)) [],
                      input_images = Some new_img_vec\<rparr>,
                   pyramid := Some pyrs\<rparr>,
              store)
      else
        (case pyramid this of
           None \<Rightarrow> None
         | Some old_pyrs \<Rightarrow>
             (case transforms this of
                None \<Rightarrow> None
              | Some tr \<Rightarrow>
                  (case track_cameras config calib ext
                          (this\<lparr>t_ns := curr_t_ns, old_pyramid := pyramid this, pyramid := Some pyrs\<rparr>)
                          old_pyrs pyrs (keypoints tr)
                          [0..<length (intrinsics calib)]
                          (replicate (length (img_data bundle)) [], store) of
                     None \<Rightarrow> None
                   | Some (kps, store1) \<Rightarrow>
                       Some (this\<lparr>t_ns := curr_t_ns, old_pyramid := pyramid this,
                                  pyramid := Some pyrs,
                                  transforms := Some \<lparr>res_t_ns = curr_t_ns, keypoints = kps,
                                     input_images = Some new_img_vec\<rparr>\<rparr>,
                             store1)))))"

definition processFrame ::
  "VioConfig \<Rightarrow> Calibration \<Rightarrow> externals \<Rightarrow> PatchOpticalFlow \<Rightarrow> input_store \<Rightarrow> int \<Rightarrow> input_ptr
     \<Rightarrow> (PatchOpticalFlow \<times> input_store) option"
where
  "processFrame config calib ext this store curr_t_ns new_img_vec =
     (case store new_img_vec of
        None \<Rightarrow> None
      | Some bundle \<Rightarrow>
          if \<exists>v \<in> set (img_data bundle). v = None then Some (this, store)
          else
            (case build_pyramids config calib ext bundle of
               None \<Rightarrow> None
             | Some pyrs \<Rightarrow>
                 (case processFrame_branch config calib ext this store curr_t_ns new_img_vec
                         bundle pyrs of
                    None \<Rightarrow> None
                  | Some (this2, store2) \<Rightarrow>
                      (case addPoints config calib ext this2 store2 of
                         None \<Rightarrow> None
                       | Some (this3, store3) \<Rightarrow>
                           (case filterPoints config calib this3 of
                              None \<Rightarrow> None
                            | Some this4 \<Rightarrow> processFrame_emit config this4 store3)))))"

text \<open>\<^verbatim>\<open>while (input_depth_queue.try_pop(depth_guess)) continue;\<close> on the values queued.\<close>

fun drain_depth_queue :: "real \<Rightarrow> real list \<Rightarrow> real" where
  "drain_depth_queue depth [] = depth"
| "drain_depth_queue depth (d # queued) = drain_depth_queue d queued"

text \<open>
  \<^verbatim>\<open>processingLoop\<close>, one round per blocking pop. A round is given by the depth values
  found in the depth channel when it is drained and by the pointer popped from the input
  queue (\<open>None\<close> is the null sentinel). When the rounds are used up the worker is blocked
  in \<^verbatim>\<open>pop\<close>, and the state reached is returned.
\<close>

fun processingLoop ::
  "VioConfig \<Rightarrow> Calibration \<Rightarrow> externals \<Rightarrow> (real list \<times> input_ptr option) list
     \<Rightarrow> PatchOpticalFlow \<times> input_store \<Rightarrow> (PatchOpticalFlow \<times> input_store) option"
where
  "processingLoop config calib ext [] (this, store) = Some (this, store)"
| "processingLoop config calib ext ((queued, input_ptr) # rounds) (this, store) =
     (let this1 = this\<lparr>depth_guess := drain_depth_queue (depth_guess this) queued\<rparr>
      in case input_ptr of
           None \<Rightarrow>
             (case output_queue this1 of
                None \<Rightarrow> None
              | Some q \<Rightarrow> Some (this1\<lparr>output_queue := Some (q @ [None])\<rparr>, store))
         | Some ptr \<Rightarrow>
             (case store ptr of
                None \<Rightarrow> None
              | Some bundle \<Rightarrow>
                  (case processFrame config calib ext this1
                          (store(ptr \<mapsto> bundle\<lparr>timing := timing bundle @ [''frames_received'']\<rparr>))
                          (in_t_ns bundle) ptr of
                     None \<Rightarrow> None
                   | Some next \<Rightarrow> processingLoop config calib ext rounds next)))"


section \<open>The specification's reading of the tracker\<close>

text \<open>
  The definitions of this section follow the words of the specification, not the
  source; the theorems compare them with the functions above.
\<close>

subsection \<open>One Gauss-Newton step\<close>

text \<open>
  Sample the pattern at \<open>linear * pattern + translation\<close>; the increment is
  \<open>- H_inv_J_T * r\<close>; it is rejected when a component is not finite or when its
  infinity norm is at least \<open>10^6\<close>; otherwise the warp is composed with the
  exponential of the increment and must stay 2 pixels inside the image.
\<close>

definition warped_pattern :: "externals \<Rightarrow> transform \<Rightarrow> vec2 list" where
  "warped_pattern ext W = map (\<lambda>p. vadd (mat2_vec (linear W) p) (translation W)) (pattern2 ext)"

definition gn_increment :: "patch \<Rightarrow> fl list \<Rightarrow> fl list" where
  "gn_increment dp r = neg_mat_vec (H_se2_inv_J_se2_T dp) r"

definition increment_rejected :: "fl list \<Rightarrow> bool" where
  "increment_rejected delta = (\<exists>c \<in> set delta. c = None \<or> \<bar>the c\<bar> \<ge> 10 ^ 6)"

definition gn_step :: "externals \<Rightarrow> image \<Rightarrow> patch \<Rightarrow> transform \<Rightarrow> transform option" where
  "gn_step ext img dp W =
     (case residual ext img dp (warped_pattern ext W) of
        None \<Rightarrow> None
      | Some r \<Rightarrow>
          (if increment_rejected (gn_increment dp r) then None
           else (let W1 = compose_right W (SE2_exp ext (map the (gn_increment dp r)))
                 in if InBounds ext img (translation W1) 2 then Some W1 else None)))"

fun gn_iter :: "externals \<Rightarrow> image \<Rightarrow> patch \<Rightarrow> nat \<Rightarrow> transform \<Rightarrow> transform option" where
  "gn_iter ext img dp 0 W = Some W"
| "gn_iter ext img dp (Suc n) W =
     (case gn_step ext img dp W of None \<Rightarrow> None | Some W1 \<Rightarrow> gn_iter ext img dp n W1)"

subsection \<open>One level, and the levels from coarse to fine\<close>

text \<open>
  At level \<open>l\<close>: an invalid reference patch is a failure; otherwise the translation is
  divided by \<open>2 ^ l\<close>, the per-level tracker runs, and the translation is multiplied by
  \<open>2 ^ l\<close>. The linear part is not touched. The levels are run in the order given, and
  the first failure ends the run.
\<close>

definition level_step ::
  "VioConfig \<Rightarrow> externals \<Rightarrow> pyramid \<Rightarrow> patch list \<Rightarrow> nat \<Rightarrow> transform \<Rightarrow> bool \<times> transform"
where
  "level_step config ext pyr patch_vec l W =
     (if \<not> valid (patch_vec ! l) then (False, W)
      else (case trackPointAtLevel config ext (lvl pyr l) (patch_vec ! l)
                   (W\<lparr>translation := vdiv (translation W) (2 ^ l)\<rparr>) of
              (ok, W1) \<Rightarrow> (ok, W1\<lparr>translation := vmul (translation W1) (2 ^ l)\<rparr>)))"

fun coarse_to_fine ::
  "VioConfig \<Rightarrow> externals \<Rightarrow> pyramid \<Rightarrow> patch list \<Rightarrow> nat list \<Rightarrow> transform \<Rightarrow> bool \<times> transform"
where
  "coarse_to_fine config ext pyr patch_vec [] W = (True, W)"
| "coarse_to_fine config ext pyr patch_vec (l # ls) W =
     (case level_step config ext pyr patch_vec l W of
        (ok, W1) \<Rightarrow> if ok then coarse_to_fine config ext pyr patch_vec ls W1 else (False, W1))"

subsection \<open>The offset and the bounds check of bidirectional tracking\<close>

definition claimed_offset :: "VioConfig \<Rightarrow> Calibration \<Rightarrow> real \<Rightarrow> nat \<Rightarrow> nat \<Rightarrow> vec2 \<Rightarrow> vec2" where
  "claimed_offset config calib depth cam_src cam_dst t1 =
     (if cam_src = cam_dst \<or> optical_flow_matching_guess_type config = SAME_PIXEL then (0, 0)
      else viewOffset calib t1 depth cam_src cam_dst)"

definition in_image :: "image \<Rightarrow> vec2 \<Rightarrow> bool" where
  "in_image img p = (0 \<le> fst p \<and> fst p < real (w img) \<and> 0 \<le> snd p \<and> snd p < real (h img))"

section \<open>A concrete rig\<close>

text \<open>
  An instance of the parameters, used to run the model on concrete inputs. The image
  stores in pixel (0, 0) the x coordinate of the feature; the residual of a sample is its
  x coordinate minus that value, so that one Gauss-Newton step moves the point onto the
  feature. \<open>demo_SE2_exp\<close> is the closed form of the SE(2) exponential,
  \<open>demo_InBounds\<close> the bounds check with a border for floating-point coordinates.
\<close>

definition demo_SE2_exp :: "real list \<Rightarrow> mat2 \<times> vec2" where
  "demo_SE2_exp a =
     (let theta = a ! 2;
          sin_theta_by_theta = (if \<bar>theta\<bar> < 1 / 10 ^ 10 then 1 - theta * theta / 6 else sin theta / theta);
          one_minus_cos_theta_by_theta =
            (if \<bar>theta\<bar> < 1 / 10 ^ 10 then theta / 2 - theta * theta * theta / 24
             else (1 - cos theta) / theta)
      in (((cos theta, - sin theta), (sin theta, cos theta)),
          (sin_theta_by_theta * (a ! 0) - one_minus_cos_theta_by_theta * (a ! 1),
           one_minus_cos_theta_by_theta * (a ! 0) + sin_theta_by_theta * (a ! 1))))"

definition demo_InBounds :: "image \<Rightarrow> vec2 \<Rightarrow> real \<Rightarrow> bool" where
  "demo_InBounds img p border =
     (border \<le> fst p \<and> fst p < real (w img) - border - 1 \<and>
      border \<le> snd p \<and> snd p < real (h img) - border - 1)"

definition demo_residual :: "image \<Rightarrow> patch \<Rightarrow> vec2 list \<Rightarrow> fl list option" where
  "demo_residual img dp pts =
     (if list_all (\<lambda>p. demo_InBounds img p 0) pts
      then Some (map (\<lambda>p. Some (fst p - real (unat (pixel img 0 0)))) pts)
      else None)"

definition demo_PatchT :: "image \<Rightarrow> vec2 \<Rightarrow> patch" where
  "demo_PatchT img pos =
     \<lparr>valid = demo_InBounds img pos 0,
      H_se2_inv_J_se2_T = [[Some 1], [Some 0], [Some 0]],
      data = [Some (real (unat (pixel img 0 0)))],
      mean = Some 1\<rparr>"

definition demo_setFromImage :: "image \<Rightarrow> int \<Rightarrow> pyramid" where
  "demo_setFromImage img levels =
     (\<lambda>l. \<lparr>w = w img div 2 ^ l, h = h img div 2 ^ l, pixel = (\<lambda>x y. pixel img x y div 2 ^ l)\<rparr>)"

definition demo_detectKeypoints ::
  "image \<Rightarrow> int \<Rightarrow> int \<Rightarrow> int \<Rightarrow> int \<Rightarrow> Masks \<Rightarrow> vec2 list \<Rightarrow> KeypointsData" where
  "demo_detectKeypoints img grid num_points min_threshold max_threshold msk pts0 =
     \<lparr>corners = (if pts0 = [] then [(8, 8)] else []), corner_angles = [], corner_descriptors = []\<rparr>"

definition demo_computeAngles :: "image \<Rightarrow> KeypointsData \<Rightarrow> bool \<Rightarrow> KeypointsData" where
  "demo_computeAngles img kd rotate_features = kd\<lparr>corner_angles := map (\<lambda>c. 0) (corners kd)\<rparr>"

definition demo_computeDescriptors :: "image \<Rightarrow> KeypointsData \<Rightarrow> KeypointsData" where
  "demo_computeDescriptors img kd = kd\<lparr>corner_descriptors := map (\<lambda>c. [True, False]) (corners kd)\<rparr>"

definition demo_ext :: externals where
  "demo_ext =
     \<lparr>pattern2 = [(0, 0)], residual = demo_residual, PatchT = demo_PatchT,
      SE2_exp = demo_SE2_exp, InBounds = demo_InBounds, setFromImage = demo_setFromImage,
      detectKeypoints = demo_detectKeypoints, computeAngles = demo_computeAngles,
      computeDescriptors = demo_computeDescriptors\<rparr>"

definition demo_image :: "16 word \<Rightarrow> image" where
  "demo_image c = \<lparr>w = 16, h = 16, pixel = (\<lambda>x y. c)\<rparr>"

definition demo_config :: VioConfig where
  "demo_config =
     \<lparr>optical_flow_levels = 1, optical_flow_max_iterations = 2,
      optical_flow_max_recovered_dist2 = 1 / 25, optical_flow_epipolar_error = 1 / 200,
      optical_flow_skip_frames = 2, optical_flow_detection_grid_size = 50,
      optical_flow_detection_num_points_cell = 1, optical_flow_detection_min_threshold = 5,
      optical_flow_detection_max_threshold = 40,
      optical_flow_matching_guess_type = REPROJ_AVG_DEPTH,
      optical_flow_matching_default_depth = 2\<rparr>"

definition demo_warp :: "real \<Rightarrow> real \<Rightarrow> transform" where
  "demo_warp x y = \<lparr>linear = mat2_identity, translation = (x, y)\<rparr>"


text \<open>
  A rig: every camera unprojects a pixel \<open>(x, y)\<close> to \<open>(x, y, 1, 0)\<close> and fails on a
  negative coordinate; the view offset is a disparity of \<open>2 / depth\<close> pixels along x;
  \<open>demo_E\<close> is the cross-product matrix of the baseline \<open>(1, 0, 0)\<close>, so that the
  epipolar residual of two observations is the difference of their y coordinates. \<open>demo_tracker\<close> is a
  tracker that holds keypoint 0 with its patch stack.
\<close>

definition demo_unproject :: "vec2 \<Rightarrow> vec4 \<times> bool" where
  "demo_unproject p = ([fst p, snd p, 1, 0], 0 \<le> fst p \<and> 0 \<le> snd p)"

definition demo_viewOffset :: "vec2 \<Rightarrow> real \<Rightarrow> nat \<Rightarrow> nat \<Rightarrow> vec2" where
  "demo_viewOffset p depth cam1 cam2 = (2 / depth, 0)"

definition demo_calib :: "nat \<Rightarrow> Calibration" where
  "demo_calib n = \<lparr>intrinsics = replicate n demo_unproject, viewOffset = demo_viewOffset\<rparr>"

definition demo_E :: "real list list" where
  "demo_E = [[0, 0, 0, 0], [0, 0, - 1, 0], [0, 1, 0, 0], [0, 0, 0, 0]]"

definition demo_bundle :: "image option list \<Rightarrow> OpticalFlowInput" where
  "demo_bundle imgs =
     \<lparr>in_t_ns = 100, img_data = imgs, masks = replicate (length imgs) [],
      in_depth_guess = - 1, timing = []\<rparr>"

definition demo_keypoint :: "real \<Rightarrow> real \<Rightarrow> bool \<Rightarrow> Keypoint" where
  "demo_keypoint x y tracked =
     \<lparr>pose = demo_warp x y, descriptor = [True, False], detected_by_opt_flow = tracked\<rparr>"

definition demo_stack :: "patch list" where
  "demo_stack = [demo_PatchT (demo_image 8) (8, 8), demo_PatchT (demo_image 4) (4, 4)]"

definition demo_tracker :: "Keypoints list \<Rightarrow> PatchOpticalFlow" where
  "demo_tracker kps =
     (PatchOpticalFlow_init demo_config demo_E)
       \<lparr>t_ns := 100, last_keypoint_id := 1, patches := [0 \<mapsto> demo_stack],
        transforms := Some \<lparr>res_t_ns = 100, keypoints = kps, input_images = Some 0\<rparr>,
        pyramid := Some (map (\<lambda>c. demo_setFromImage (demo_image c) 1) [8, 7, 7])\<rparr>"

definition demo_store :: input_store where
  "demo_store = [0 \<mapsto> demo_bundle [Some (demo_image 8), Some (demo_image 7), Some (demo_image 7)]]"

text \<open>
  \<^verbatim>\<open>filterPoints\<close> on a stereo pair of observations of keypoint \<open>i\<close>: \<open>(8, 8)\<close> in camera
  0 and \<open>(7, 11)\<close> in camera 1, whose epipolar residual is 3.
\<close>

definition demo_epipolar :: "KeypointId \<Rightarrow> PatchOpticalFlow option" where
  "demo_epipolar i =
     filterPoints demo_config (demo_calib 2)
       (demo_tracker [[(i, demo_keypoint 8 8 False)], [(i, demo_keypoint 7 11 True)]])"

text \<open>The keypoint map of one camera in the state a call returned.\<close>

definition camera_keypoints :: "nat \<Rightarrow> PatchOpticalFlow option \<Rightarrow> Keypoints option" where
  "camera_keypoints cam r =
     (case r of
        None \<Rightarrow> None
      | Some this \<Rightarrow> (case transforms this of None \<Rightarrow> None | Some tr \<Rightarrow> Some (keypoints tr ! cam)))"

text \<open>
  The newly detected keypoints of \<open>demo_tracker\<close> with three cameras, matched by
  \<^verbatim>\<open>trackPoints\<close> from camera 0 to camera \<open>cam\<close> (cameras 1 and 2 see the same image).
\<close>

definition demo_seed :: "nat \<Rightarrow> Keypoints option" where
  "demo_seed cam =
     (case addPoints_detect demo_config demo_ext (demo_tracker [[], [], []]) demo_store of
        None \<Rightarrow> None
      | Some (this1, new_kpts0) \<Rightarrow>
          map_option fst
            (trackPoints demo_config (demo_calib 3) demo_ext this1 demo_store
               (demo_setFromImage (demo_image 8) 1) (demo_setFromImage (demo_image 7) 1)
               new_kpts0 0 cam))"

text \<open>
  The first frame of a stereo rig, fed to a freshly constructed tracker with an output
  queue attached.
\<close>

definition demo_first_frame :: "(PatchOpticalFlow \<times> input_store) option" where
  "demo_first_frame =
     processFrame demo_config (demo_calib 2) demo_ext
       ((PatchOpticalFlow_init demo_config demo_E)\<lparr>output_queue := Some []\<rparr>) demo_store 100 0"

text \<open>
  Observations of a run of the worker: the depth state it ends with, and, for every
  result in the output queue, the \<^verbatim>\<open>depth_guess\<close> field that the result reports through
  \<^verbatim>\<open>input_images\<close>. \<open>demo_worker n rounds\<close> runs the worker of a rig of \<open>n\<close> cameras that
  emits every frame.
\<close>

definition reported_depth_guess :: "(PatchOpticalFlow \<times> input_store) option \<Rightarrow> real option list" where
  "reported_depth_guess r =
     (case r of
        None \<Rightarrow> []
      | Some (this, store) \<Rightarrow>
          (case output_queue this of
             None \<Rightarrow> []
           | Some q \<Rightarrow>
               map (\<lambda>res. case res of
                             None \<Rightarrow> None
                           | Some tr \<Rightarrow>
                               (case input_images tr of
                                  None \<Rightarrow> None
                                | Some ptr \<Rightarrow> map_option in_depth_guess (store ptr)))
                   q))"

definition worker_depth_guess :: "(PatchOpticalFlow \<times> input_store) option \<Rightarrow> real option" where
  "worker_depth_guess r = (case r of None \<Rightarrow> None | Some (this, store) \<Rightarrow> Some (depth_guess this))"

definition demo_store2 :: input_store where
  "demo_store2 =
     demo_store(1 \<mapsto> (demo_bundle [Some (demo_image 8), Some (demo_image 7), Some (demo_image 7)])
                          \<lparr>in_t_ns := 200\<rparr>)"

definition demo_worker ::
  "nat \<Rightarrow> (real list \<times> input_ptr option) list \<Rightarrow> (PatchOpticalFlow \<times> input_store) option" where
  "demo_worker n rounds =
     processingLoop (demo_config\<lparr>optical_flow_skip_frames := 1\<rparr>) (demo_calib n) demo_ext rounds
       ((PatchOpticalFlow_init demo_config demo_E)\<lparr>output_queue := Some []\<rparr>, demo_store2)"

section \<open>Properties\<close>

declare trackPointAtLevel_loop.simps [simp del]
declare trackPoint_loop.simps [simp del]

lemmas demo_defs = demo_SE2_exp_def demo_InBounds_def demo_residual_def demo_PatchT_def
  demo_setFromImage_def demo_detectKeypoints_def demo_computeAngles_def demo_computeDescriptors_def
  demo_ext_def demo_image_def demo_config_def demo_warp_def

lemmas vec_defs = vadd_def vsub_def vdiv_def vmul_def squaredNorm_def mat2_vec_def mat2_mul_def
  mat2_identity_def compose_right_def fl_neg_def fl_add_def fl_mul_def fl_dot_def neg_mat_vec_def
  isFinite_all_def lpNorm_Infinity_def fl_less_def lvl_def

lemmas rig_defs = demo_unproject_def demo_viewOffset_def demo_calib_def demo_E_def demo_bundle_def
  demo_keypoint_def demo_stack_def demo_tracker_def demo_store_def PatchOpticalFlow_init_def

subsection \<open>The per-level tracker\<close>

lemma foldl_max_less:
  "foldl max a xs < (b::real) \<longleftrightarrow> a < b \<and> (\<forall>x \<in> set xs. x < b)"
  by (induction xs arbitrary: a) auto

lemma increment_accepted_iff:
  "isFinite_all v \<and> fl_less (lpNorm_Infinity v) 1000000 \<longleftrightarrow> \<not> increment_rejected v"
  by (auto simp: isFinite_all_def lpNorm_Infinity_def fl_less_def increment_rejected_def
      foldl_max_less list_all_iff not_le)

lemma loop_False:
  "trackPointAtLevel_loop config ext img dp i False W = (False, W, i)"
  by (subst trackPointAtLevel_loop.simps) simp

lemma loop_done:
  "\<not> i < optical_flow_max_iterations config \<Longrightarrow>
   trackPointAtLevel_loop config ext img dp i b W = (b, W, i)"
  by (subst trackPointAtLevel_loop.simps) simp

lemma loop_step_Some:
  assumes "i < optical_flow_max_iterations config" "gn_step ext img dp W = Some W1"
  shows "trackPointAtLevel_loop config ext img dp i True W =
         trackPointAtLevel_loop config ext img dp (i + 1) True W1"
  using assms increment_accepted_iff
  apply (subst trackPointAtLevel_loop.simps)
  apply (auto simp: gn_step_def warped_pattern_def gn_increment_def Let_def
      split: option.splits if_splits)
  done

lemma loop_step_None:
  assumes "i < optical_flow_max_iterations config" "gn_step ext img dp W = None"
  shows "\<exists>Wf. trackPointAtLevel_loop config ext img dp i True W = (False, Wf, i + 1)"
  using assms increment_accepted_iff
  apply (subst trackPointAtLevel_loop.simps)
  apply (auto simp: gn_step_def warped_pattern_def gn_increment_def Let_def loop_False
      split: option.splits if_splits)
  done


lemma gn_iter_add:
  "gn_iter ext img dp (a + b) W =
     (case gn_iter ext img dp a W of None \<Rightarrow> None | Some W1 \<Rightarrow> gn_iter ext img dp b W1)"
  by (induction a arbitrary: W) (auto split: option.splits)

lemma gn_iter_fail_later:
  assumes "gn_iter ext img dp j W = Some Wj" "gn_step ext img dp Wj = None" "j < n"
  shows "gn_iter ext img dp n W = None"
proof -
  have "n = j + Suc (n - Suc j)" using assms(3) by simp
  then have "gn_iter ext img dp n W = gn_iter ext img dp (j + Suc (n - Suc j)) W" by simp
  also have "\<dots> = None" using assms(1,2) by (subst gn_iter_add) simp
  finally show ?thesis .
qed

lemma loop_general:
  assumes "n = nat (optical_flow_max_iterations config - i)"
    and "trackPointAtLevel_loop config ext img dp i True W = (ok, W1, k)"
  shows "i \<le> k \<and> k \<le> max i (optical_flow_max_iterations config)
     \<and> (ok \<longrightarrow> gn_iter ext img dp n W = Some W1 \<and> k = max i (optical_flow_max_iterations config))
     \<and> (\<not> ok \<longrightarrow> (\<exists>j Wj. j < n \<and> k = i + int j + 1 \<and> gn_iter ext img dp j W = Some Wj
              \<and> gn_step ext img dp Wj = None))"
  using assms
proof (induction n arbitrary: i W)
  case 0
  then have "\<not> i < optical_flow_max_iterations config" by simp
  with 0 show ?case by (simp add: loop_done)
next
  case (Suc n)
  then have lt: "i < optical_flow_max_iterations config" by simp
  show ?case
  proof (cases "gn_step ext img dp W")
    case None
    from loop_step_None [OF lt None] Suc.prems(2)
    have "ok = False" "k = i + 1" by auto
    with None show ?thesis using lt by (auto intro!: exI [of _ 0])
  next
    case (Some W2)
    have n: "n = nat (optical_flow_max_iterations config - (i + 1))" using Suc.prems(1) by simp
    have run: "trackPointAtLevel_loop config ext img dp (i + 1) True W2 = (ok, W1, k)"
      using loop_step_Some [OF lt Some] Suc.prems(2) by simp
    note IH = Suc.IH [OF n run]
    show ?thesis
    proof (cases ok)
      case True
      with IH Some lt show ?thesis by auto
    next
      case False
      with IH obtain j Wj where j: "j < n" "k = i + 1 + int j + 1"
        "gn_iter ext img dp j W2 = Some Wj" "gn_step ext img dp Wj = None" by auto
      then have "Suc j < Suc n \<and> k = i + int (Suc j) + 1 \<and> gn_iter ext img dp (Suc j) W = Some Wj
         \<and> gn_step ext img dp Wj = None" using Some by simp
      then show ?thesis using False IH lt by (intro conjI impI; (blast | linarith)?)
    qed
  qed
qed

text \<open>
  C2. \<^verbatim>\<open>trackPointAtLevel\<close> performs Gauss-Newton steps as the specification describes
  them (\<open>gn_step\<close>): it returns the flag and the warp of the loop; the loop variable
  ends between 0 and \<^verbatim>\<open>optical_flow_max_iterations\<close>; the call succeeds iff every one of
  the \<^verbatim>\<open>optical_flow_max_iterations\<close> steps succeeds, and then returns the warp after
  these steps; it fails iff some step fails, and then stops right after the first step
  that fails.
\<close>

theorem trackPointAtLevel_gauss_newton:
  assumes "trackPointAtLevel_loop config ext img dp 0 True W = (ok, W1, k)"
  shows "trackPointAtLevel config ext img dp W = (ok, W1)
     \<and> 0 \<le> k \<and> k \<le> max 0 (optical_flow_max_iterations config)
     \<and> (ok \<longleftrightarrow> gn_iter ext img dp (nat (optical_flow_max_iterations config)) W \<noteq> None)
     \<and> (ok \<longrightarrow> gn_iter ext img dp (nat (optical_flow_max_iterations config)) W = Some W1)
     \<and> (\<not> ok \<longrightarrow> (\<exists>j Wj. k = int j + 1 \<and> gn_iter ext img dp j W = Some Wj
              \<and> gn_step ext img dp Wj = None))"
proof -
  have n: "nat (optical_flow_max_iterations config) = nat (optical_flow_max_iterations config - 0)"
    by simp
  note G = loop_general [OF n assms]
  have fail: "gn_iter ext img dp (nat (optical_flow_max_iterations config)) W = None
      \<and> (\<exists>j Wj. k = int j + 1 \<and> gn_iter ext img dp j W = Some Wj \<and> gn_step ext img dp Wj = None)"
    if "\<not> ok"
  proof -
    from G that obtain j Wj where j: "j < nat (optical_flow_max_iterations config)"
      "k = int j + 1" "gn_iter ext img dp j W = Some Wj" "gn_step ext img dp Wj = None"
      by auto
    from gn_iter_fail_later [OF j(3) j(4) j(1)] j show ?thesis by blast
  qed
  have succ: "gn_iter ext img dp (nat (optical_flow_max_iterations config)) W = Some W1" if ok
    using G that by simp
  have tp: "trackPointAtLevel config ext img dp W = (ok, W1)"
    using assms by (simp add: trackPointAtLevel_def)
  have bounds: "0 \<le> k \<and> k \<le> max 0 (optical_flow_max_iterations config)"
    using G by simp
  show ?thesis
  proof (cases ok)
    case True
    with succ tp bounds show ?thesis by simp
  next
    case False
    with fail tp bounds show ?thesis by simp
  qed
qed


theorem trackPointAtLevel_gauss_newton_witness:
  "trackPointAtLevel_loop demo_config demo_ext (demo_image 6) (demo_PatchT (demo_image 5) (5, 5))
       0 True (demo_warp 5 5) = (True, demo_warp 6 5, 2)
   \<and> trackPointAtLevel demo_config demo_ext (demo_image 6) (demo_PatchT (demo_image 5) (5, 5))
       (demo_warp 5 5) = (True, demo_warp 6 5)
   \<and> gn_iter demo_ext (demo_image 6) (demo_PatchT (demo_image 5) (5, 5))
       (nat (optical_flow_max_iterations demo_config)) (demo_warp 5 5) = Some (demo_warp 6 5)"
proof -
  have run: "trackPointAtLevel_loop demo_config demo_ext (demo_image 6)
       (demo_PatchT (demo_image 5) (5, 5)) 0 True (demo_warp 5 5) = (True, demo_warp 6 5, 2)"
    by (simp add: trackPointAtLevel_loop.simps demo_defs vec_defs)
  from trackPointAtLevel_gauss_newton [OF run] run show ?thesis by simp
qed

subsection \<open>The level loop\<close>

lemma scale_of_pow: "0 \<le> level \<Longrightarrow> level \<le> 30 \<Longrightarrow> scale_of level = 2 ^ nat level"
proof -
  assume a: "0 \<le> level" "level \<le> 30"
  then have n: "nat level < 31" by simp
  have w: "push_bit (nat level) (1 :: 32 word) = word_of_int (2 ^ nat level)"
    by (simp add: push_bit_eq_mult)
  have lt: "(2::int) ^ nat level < 2 ^ 31"
    using n by (intro power_strict_increasing) simp_all
  have "sint (word_of_int (2 ^ nat level) :: 32 word) = 2 ^ nat level"
  proof -
    have ge: "- (2 ^ 31) \<le> (2::int) ^ nat level"
      by (rule order.trans [of _ 0]) simp_all
    show ?thesis
      unfolding sint_sbintrunc' using lt ge
      by (intro signed_take_bit_int_eq_self) simp_all
  qed
  then show ?thesis by (simp add: scale_of_def w)
qed

lemma vmul_vdiv: "s \<noteq> 0 \<Longrightarrow> vmul (vdiv t s) s = t"
  by (simp add: vmul_def vdiv_def)

lemma trackPoint_loop_False:
  "trackPoint_loop config ext pyr patch_vec level False W = Some (False, W)"
  by (subst trackPoint_loop.simps) simp

lemma trackPoint_loop_neg:
  "level < 0 \<Longrightarrow> trackPoint_loop config ext pyr patch_vec level b W = Some (b, W)"
  by (subst trackPoint_loop.simps) simp

lemma trackPoint_loop_step:
  assumes "0 \<le> level" "level \<le> 30" "nat level < length patch_vec"
  shows "trackPoint_loop config ext pyr patch_vec level True W =
     (case level_step config ext pyr patch_vec (nat level) W of
        (ok, W1) \<Rightarrow> trackPoint_loop config ext pyr patch_vec (level - 1) ok W1)"
proof -
  have s: "scale_of level = 2 ^ nat level" using assms by (simp add: scale_of_pow)
  have r: "W\<lparr>translation := vmul (vdiv (translation W) (2 ^ nat level)) (2 ^ nat level)\<rparr> = W"
    by (simp add: vmul_vdiv)
  show ?thesis
    using assms
    apply (subst trackPoint_loop.simps)
    apply (simp add: s level_step_def Let_def r split: prod.splits)
    done
qed

lemma trackPoint_loop_coarse_to_fine:
  assumes "n = nat (level + 1)" "level \<le> 30" "n \<le> length patch_vec"
  shows "trackPoint_loop config ext pyr patch_vec level True W =
         Some (coarse_to_fine config ext pyr patch_vec (rev [0..<n]) W)"
  using assms
proof (induction n arbitrary: level W)
  case 0
  then show ?case by (simp add: trackPoint_loop_neg)
next
  case (Suc n)
  then have l: "0 \<le> level" "nat level = n" "nat level < length patch_vec" by simp_all
  have n: "n = nat (level - 1 + 1)" using l by simp
  obtain ok W1 where st: "level_step config ext pyr patch_vec n W = (ok, W1)"
    by (cases "level_step config ext pyr patch_vec n W")
  show ?case
  proof (cases ok)
    case True
    have "trackPoint_loop config ext pyr patch_vec (level - 1) True W1 =
          Some (coarse_to_fine config ext pyr patch_vec (rev [0..<n]) W1)"
      using Suc.IH [OF n] Suc.prems by simp
    then show ?thesis
      using trackPoint_loop_step [OF l(1) Suc.prems(2) l(3)] st True l(2) by simp
  next
    case False
    then show ?thesis
      using trackPoint_loop_step [OF l(1) Suc.prems(2) l(3)] st l(2)
      by (simp add: trackPoint_loop_False)
  qed
qed


text \<open>
  C3. With at most 30 levels and a patch stack that has a patch for every level,
  \<^verbatim>\<open>trackPoint\<close> runs the levels \<^verbatim>\<open>optical_flow_levels\<close>, ..., 1, 0 in this order; at each
  level it fails on an invalid patch, and otherwise divides the translation by
  \<open>2 ^ level\<close>, runs the per-level tracker and multiplies the translation by
  \<open>2 ^ level\<close>; the first failing level makes the call fail. The linear part after a
  level is the one the per-level tracker left (or the one before the level, when the
  patch is invalid): it is never rescaled.
\<close>

theorem trackPoint_coarse_to_fine:
  assumes "optical_flow_levels config \<le> 30"
    and "nat (optical_flow_levels config + 1) \<le> length patch_vec"
  shows "trackPoint config ext pyr patch_vec W =
           Some (coarse_to_fine config ext pyr patch_vec
                   (rev [0..<nat (optical_flow_levels config + 1)]) W)
         \<and> (\<forall>l W0. linear (snd (level_step config ext pyr patch_vec l W0)) =
               (if valid (patch_vec ! l)
                then linear (snd (trackPointAtLevel config ext (lvl pyr l) (patch_vec ! l)
                        (W0\<lparr>translation := vdiv (translation W0) (2 ^ l)\<rparr>)))
                else linear W0))"
proof
  show "trackPoint config ext pyr patch_vec W =
           Some (coarse_to_fine config ext pyr patch_vec
                   (rev [0..<nat (optical_flow_levels config + 1)]) W)"
    unfolding trackPoint_def
    by (rule trackPoint_loop_coarse_to_fine [OF refl assms])
next
  show "\<forall>l W0. linear (snd (level_step config ext pyr patch_vec l W0)) =
               (if valid (patch_vec ! l)
                then linear (snd (trackPointAtLevel config ext (lvl pyr l) (patch_vec ! l)
                        (W0\<lparr>translation := vdiv (translation W0) (2 ^ l)\<rparr>)))
                else linear W0)"
    by (simp add: level_step_def split: prod.splits)
qed

theorem trackPoint_coarse_to_fine_witness:
  "optical_flow_levels demo_config \<le> 30
   \<and> nat (optical_flow_levels demo_config + 1)
        \<le> length (patch_stack demo_config demo_ext (demo_setFromImage (demo_image 5) 1) (4, 4))
   \<and> trackPoint demo_config demo_ext (demo_setFromImage (demo_image 6) 1)
        (patch_stack demo_config demo_ext (demo_setFromImage (demo_image 5) 1) (4, 4))
        (demo_warp 4 4) = Some (True, demo_warp 6 4)"
proof -
  have l: "optical_flow_levels demo_config \<le> 30" by (simp add: demo_config_def)
  have st: "patch_stack demo_config demo_ext (demo_setFromImage (demo_image 5) 1) (4, 4) =
      [demo_PatchT (demo_image 5) (4, 4),
       demo_PatchT \<lparr>w = 8, h = 8, pixel = (\<lambda>x y. 2)\<rparr> (2, 2)]"
    by (simp add: patch_stack_def demo_defs vec_defs upto.simps scale_of_def)
  have n: "nat (optical_flow_levels demo_config + 1)
        \<le> length (patch_stack demo_config demo_ext (demo_setFromImage (demo_image 5) 1) (4, 4))"
    unfolding st by (simp add: demo_config_def)
  have ls: "rev [0..<nat (optical_flow_levels demo_config + 1)] = [1, 0]"
    by (simp add: demo_config_def numeral_2_eq_2)
  have ev: "coarse_to_fine demo_config demo_ext (demo_setFromImage (demo_image 6) 1)
        (patch_stack demo_config demo_ext (demo_setFromImage (demo_image 5) 1) (4, 4))
        (rev [0..<nat (optical_flow_levels demo_config + 1)]) (demo_warp 4 4)
      = (True, demo_warp 6 4)"
    unfolding st ls
    by (simp add: level_step_def trackPointAtLevel_def trackPointAtLevel_loop.simps
        demo_defs vec_defs)
  from trackPoint_coarse_to_fine [OF l n] l n ev show ?thesis by simp
qed

lemma coarse_to_fine_last_level:
  assumes "coarse_to_fine config ext pyr patch_vec ls W = (ok, W1)"
  shows "(W1 = W \<and> (ls = [] \<or> \<not> ok)) \<or>
     (\<exists>pre l post W0 okl Wl. ls = pre @ l # post \<and> (ok \<longrightarrow> post = [] \<and> okl)
        \<and> coarse_to_fine config ext pyr patch_vec pre W = (True, W0)
        \<and> valid (patch_vec ! l)
        \<and> trackPointAtLevel config ext (lvl pyr l) (patch_vec ! l)
             (W0\<lparr>translation := vdiv (translation W0) (2 ^ l)\<rparr>) = (okl, Wl)
        \<and> W1 = Wl\<lparr>translation := vmul (translation Wl) (2 ^ l)\<rparr>)"
  using assms
proof (induction ls arbitrary: W)
  case Nil
  then show ?case by simp
next
  case (Cons l ls)
  show ?case
  proof (cases "valid (patch_vec ! l)")
    case False
    with Cons.prems show ?thesis by (simp add: level_step_def)
  next
    case True
    obtain okl Wl where tr: "trackPointAtLevel config ext (lvl pyr l) (patch_vec ! l)
             (W\<lparr>translation := vdiv (translation W) (2 ^ l)\<rparr>) = (okl, Wl)"
      by (cases "trackPointAtLevel config ext (lvl pyr l) (patch_vec ! l)
             (W\<lparr>translation := vdiv (translation W) (2 ^ l)\<rparr>)")
    define W2 where "W2 = Wl\<lparr>translation := vmul (translation Wl) (2 ^ l)\<rparr>"
    have st: "level_step config ext pyr patch_vec l W = (okl, W2)"
      using True tr by (simp add: level_step_def W2_def)
    have here: "l # ls = [] @ l # ls \<and> coarse_to_fine config ext pyr patch_vec [] W = (True, W)"
      by simp
    show ?thesis
    proof (cases okl)
      case False
      with Cons.prems st have "ok = False" "W1 = W2" by simp_all
      with here True tr W2_def show ?thesis by blast
    next
      case okl: True
      with Cons.prems st have rest: "coarse_to_fine config ext pyr patch_vec ls W2 = (ok, W1)"
        by simp
      from Cons.IH [OF rest] show ?thesis
      proof
        assume a: "W1 = W2 \<and> (ls = [] \<or> \<not> ok)"
        then have "ok \<longrightarrow> ls = [] \<and> okl" using okl by blast
        with here True tr W2_def a show ?thesis by blast
      next
        assume "\<exists>pre l' post W0 okl' Wl'. ls = pre @ l' # post \<and> (ok \<longrightarrow> post = [] \<and> okl')
          \<and> coarse_to_fine config ext pyr patch_vec pre W2 = (True, W0)
          \<and> valid (patch_vec ! l')
          \<and> trackPointAtLevel config ext (lvl pyr l') (patch_vec ! l')
               (W0\<lparr>translation := vdiv (translation W0) (2 ^ l')\<rparr>) = (okl', Wl')
          \<and> W1 = Wl'\<lparr>translation := vmul (translation Wl') (2 ^ l')\<rparr>"
        then obtain pre l' post W0 okl' Wl' where
          e: "ls = pre @ l' # post" "ok \<longrightarrow> post = [] \<and> okl'"
          "coarse_to_fine config ext pyr patch_vec pre W2 = (True, W0)"
          "valid (patch_vec ! l')"
          "trackPointAtLevel config ext (lvl pyr l') (patch_vec ! l')
               (W0\<lparr>translation := vdiv (translation W0) (2 ^ l')\<rparr>) = (okl', Wl')"
          "W1 = Wl'\<lparr>translation := vmul (translation Wl') (2 ^ l')\<rparr>" by blast
        have "l # ls = (l # pre) @ l' # post" using e(1) by simp
        moreover have "coarse_to_fine config ext pyr patch_vec (l # pre) W = (True, W0)"
          using st okl e(3) by simp
        ultimately show ?thesis using e(2,4,5,6) by blast
      qed
    qed
  qed
qed

text \<open>
  C10. With at most 30 levels and a patch stack that has a patch for every level,
  \<^verbatim>\<open>trackPoint\<close> always returns, with success or with failure, and the warp it leaves
  is either the warp it was given (when no per-level tracker ran), or the warp that the
  per-level tracker of the last level entered, \<open>l\<close>, left, with its translation
  multiplied by \<open>2 ^ l\<close>, that tracker having been started from the level-0 warp of the
  levels before with its translation divided by \<open>2 ^ l\<close>. So the division on entering a
  level is always matched by the multiplication, also when that level fails or when the
  next patch is invalid. On success the last level entered is level 0.
\<close>

theorem trackPoint_translation_level0:
  assumes "optical_flow_levels config \<le> 30"
    and "nat (optical_flow_levels config + 1) \<le> length patch_vec"
  shows "\<exists>ok W1. trackPoint config ext pyr patch_vec W = Some (ok, W1) \<and>
     ((W1 = W \<and> (optical_flow_levels config < 0 \<or> \<not> ok)) \<or>
      (\<exists>pre l post W0 okl Wl.
          rev [0..<nat (optical_flow_levels config + 1)] = pre @ l # post
        \<and> (ok \<longrightarrow> post = [] \<and> okl)
        \<and> coarse_to_fine config ext pyr patch_vec pre W = (True, W0)
        \<and> valid (patch_vec ! l)
        \<and> trackPointAtLevel config ext (lvl pyr l) (patch_vec ! l)
             (W0\<lparr>translation := vdiv (translation W0) (2 ^ l)\<rparr>) = (okl, Wl)
        \<and> W1 = Wl\<lparr>translation := vmul (translation Wl) (2 ^ l)\<rparr>))"
proof -
  obtain ok W1 where r: "coarse_to_fine config ext pyr patch_vec
       (rev [0..<nat (optical_flow_levels config + 1)]) W = (ok, W1)"
    by (cases "coarse_to_fine config ext pyr patch_vec
       (rev [0..<nat (optical_flow_levels config + 1)]) W")
  have tp: "trackPoint config ext pyr patch_vec W = Some (ok, W1)"
    unfolding trackPoint_def
    using trackPoint_loop_coarse_to_fine [OF refl assms] r by simp
  have "rev [0..<nat (optical_flow_levels config + 1)] = [] \<longleftrightarrow> optical_flow_levels config < 0"
    by auto
  with coarse_to_fine_last_level [OF r] tp show ?thesis by auto
qed


theorem trackPoint_translation_level0_witness:
  "optical_flow_levels demo_config \<le> 30
   \<and> nat (optical_flow_levels demo_config + 1)
        \<le> length [demo_PatchT (demo_image 5) (4, 4), demo_PatchT (demo_image 2) (2, 2)]
   \<and> trackPoint demo_config demo_ext (demo_setFromImage (demo_image 30) 1)
        [demo_PatchT (demo_image 5) (4, 4), demo_PatchT (demo_image 2) (2, 2)]
        (demo_warp 4 4) = Some (False, demo_warp 30 4)
   \<and> trackPointAtLevel demo_config demo_ext (lvl (demo_setFromImage (demo_image 30) 1) 1)
        (demo_PatchT (demo_image 2) (2, 2)) (demo_warp 2 2) = (False, demo_warp 15 2)
   \<and> (\<exists>ok W1. trackPoint demo_config demo_ext (demo_setFromImage (demo_image 30) 1)
          [demo_PatchT (demo_image 5) (4, 4), demo_PatchT (demo_image 2) (2, 2)]
          (demo_warp 4 4) = Some (ok, W1))"
proof -
  have l: "optical_flow_levels demo_config \<le> 30" by (simp add: demo_config_def)
  have n: "nat (optical_flow_levels demo_config + 1)
        \<le> length [demo_PatchT (demo_image 5) (4, 4), demo_PatchT (demo_image 2) (2, 2)]"
    by (simp add: demo_config_def)
  have lv: "trackPointAtLevel demo_config demo_ext (lvl (demo_setFromImage (demo_image 30) 1) 1)
        (demo_PatchT (demo_image 2) (2, 2)) (demo_warp 2 2) = (False, demo_warp 15 2)"
    by (simp add: trackPointAtLevel_def trackPointAtLevel_loop.simps demo_defs vec_defs)
  have ev: "trackPoint demo_config demo_ext (demo_setFromImage (demo_image 30) 1)
        [demo_PatchT (demo_image 5) (4, 4), demo_PatchT (demo_image 2) (2, 2)]
        (demo_warp 4 4) = Some (False, demo_warp 30 4)"
    by (simp add: trackPoint_def trackPoint_loop.simps scale_of_def trackPointAtLevel_def
        trackPointAtLevel_loop.simps demo_defs vec_defs)
  from trackPoint_translation_level0 [OF l n] have
    "\<exists>ok W1. trackPoint demo_config demo_ext (demo_setFromImage (demo_image 30) 1)
          [demo_PatchT (demo_image 5) (4, 4), demo_PatchT (demo_image 2) (2, 2)]
          (demo_warp 4 4) = Some (ok, W1)"
    by blast
  with l n lv ev show ?thesis by blast
qed

subsection \<open>Bidirectional tracking\<close>

lemma trackPoint_loop_total:
  assumes "n = nat (level + 1)" "n \<le> length patch_vec"
  shows "\<exists>r. trackPoint_loop config ext pyr patch_vec level b W = Some r"
  using assms
proof (induction n arbitrary: level b W)
  case 0
  then show ?case by (simp add: trackPoint_loop_neg)
next
  case (Suc n)
  then have l: "0 \<le> level" "nat level < length patch_vec" "n = nat (level - 1 + 1)"
    "n \<le> length patch_vec" by simp_all
  show ?case
  proof (cases b)
    case False
    then show ?thesis by (auto simp: trackPoint_loop_False)
  next
    case True
    show ?thesis
      using l(1,2) True Suc.IH [OF l(3,4)]
      by (subst trackPoint_loop.simps) (simp add: Let_def)
  qed
qed

lemma trackPoint_total:
  "nat (optical_flow_levels config + 1) \<le> length patch_vec \<Longrightarrow>
   \<exists>ok W1. trackPoint config ext pyr patch_vec W = Some (ok, W1)"
  using trackPoint_loop_total [OF refl, of "optical_flow_levels config" patch_vec config ext pyr True W]
  by (auto simp: trackPoint_def)

lemma compute_func_distinct:
  "compute_func config calib ext ps depth pyr_1 pyr_2 cam1 cam2 kvs result = Some m \<Longrightarrow>
   distinct (map fst result) \<Longrightarrow> distinct (map fst m)"
  by (induction kvs arbitrary: result)
     (auto split: option.splits simp: distinct_update)

lemma compute_func_map_of:
  "compute_func config calib ext ps depth pyr_1 pyr_2 cam1 cam2 kvs result = Some m \<Longrightarrow>
   distinct (map fst kvs) \<Longrightarrow>
   map_of m i =
     (case map_of kvs i of
        None \<Rightarrow> map_of result i
      | Some init \<Rightarrow>
          (case compute_func_body config calib ext ps depth pyr_1 pyr_2 cam1 cam2 i init of
             Some (Some k) \<Rightarrow> Some k
           | _ \<Rightarrow> map_of result i))"
proof (induction kvs arbitrary: result)
  case Nil
  then show ?case by simp
next
  case (Cons kv kvs)
  obtain j init where kv: "kv = (j, init)" by (cases kv)
  have notin: "map_of kvs j = None" using Cons.prems(2) kv
    by (simp add: map_of_eq_None_iff)
  show ?case
  proof (cases "compute_func_body config calib ext ps depth pyr_1 pyr_2 cam1 cam2 j init")
    case None
    with Cons.prems kv show ?thesis by simp
  next
    case (Some r)
    show ?thesis
    proof (cases r)
      case None
      with Some Cons.prems kv have
        "compute_func config calib ext ps depth pyr_1 pyr_2 cam1 cam2 kvs result = Some m" by simp
      from Cons.IH [OF this] Cons.prems(2) Some None kv notin show ?thesis
        by (auto split: option.splits)
    next
      case (Some k)
      with \<open>compute_func_body config calib ext ps depth pyr_1 pyr_2 cam1 cam2 j init = Some r\<close>
        Cons.prems kv have
        "compute_func config calib ext ps depth pyr_1 pyr_2 cam1 cam2 kvs (AList.update j k result) = Some m"
        by simp
      from Cons.IH [OF this] Cons.prems(2) Some kv notin
        \<open>compute_func_body config calib ext ps depth pyr_1 pyr_2 cam1 cam2 j init = Some r\<close>
      show ?thesis
        by (auto split: option.splits simp: update_conv')
    qed
  qed
qed

lemma compute_func_total:
  "(\<forall>kv \<in> set kvs. compute_func_body config calib ext ps depth pyr_1 pyr_2 cam1 cam2 (fst kv) (snd kv) \<noteq> None)
   \<Longrightarrow> \<exists>m. compute_func config calib ext ps depth pyr_1 pyr_2 cam1 cam2 kvs result = Some m"
  by (induction kvs arbitrary: result) (auto split: option.splits)


lemma compute_func_body_total:
  assumes "ps i = Some pv" "nat (optical_flow_levels config + 1) \<le> length pv"
  shows "compute_func_body config calib ext ps depth pyr_1 pyr_2 cam1 cam2 i init \<noteq> None"
proof -
  have tp: "\<And>pyr W. \<exists>ok W1. trackPoint config ext pyr pv W = Some (ok, W1)"
    using trackPoint_total [OF assms(2)] by blast
  define off where "off = (if cam1 \<noteq> cam2 \<and> optical_flow_matching_guess_type config \<noteq> SAME_PIXEL
     then viewOffset calib (translation (pose init)) depth cam1 cam2 else (0, 0))"
  obtain ok1 Wf where f: "trackPoint config ext pyr_2 pv
     ((pose init)\<lparr>translation := vsub (translation (pose init)) off\<rparr>) = Some (ok1, Wf)"
    using tp by blast
  obtain ok2 Wb where b: "trackPoint config ext pyr_1 pv
     (Wf\<lparr>translation := vadd (translation Wf) off\<rparr>) = Some (ok2, Wb)"
    using tp by blast
  show ?thesis
    unfolding compute_func_body_def Let_def off_def [symmetric]
    using assms(1) f b by simp
qed

lemma compute_func_body_accept:
  assumes "ps i = Some pv"
  shows "compute_func_body config calib ext ps depth pyr_1 pyr_2 cam1 cam2 i init = Some (Some k) \<longleftrightarrow>
     (\<exists>Wf Wb.
        in_image (lvl pyr_2 0)
          (vsub (translation (pose init))
             (claimed_offset config calib depth cam1 cam2 (translation (pose init))))
      \<and> trackPoint config ext pyr_2 pv
          ((pose init)\<lparr>translation := vsub (translation (pose init))
             (claimed_offset config calib depth cam1 cam2 (translation (pose init)))\<rparr>) = Some (True, Wf)
      \<and> trackPoint config ext pyr_1 pv
          (Wf\<lparr>translation := vadd (translation Wf)
             (claimed_offset config calib depth cam1 cam2 (translation (pose init)))\<rparr>) = Some (True, Wb)
      \<and> squaredNorm (vsub (translation (pose init)) (translation Wb))
           < optical_flow_max_recovered_dist2 config
      \<and> k = \<lparr>pose = Wf, descriptor = descriptor init, detected_by_opt_flow = True\<rparr>)"
proof -
  have off: "(if cam1 \<noteq> cam2 \<and> optical_flow_matching_guess_type config \<noteq> SAME_PIXEL
              then viewOffset calib (translation (pose init)) depth cam1 cam2 else (0, 0))
           = claimed_offset config calib depth cam1 cam2 (translation (pose init))"
    by (simp add: claimed_offset_def)
  show ?thesis
    unfolding compute_func_body_def Let_def off
    using assms
    by (auto simp: in_image_def split: option.splits prod.splits)
qed


text \<open>
  C1. \<^verbatim>\<open>trackPoints\<close> on a keypoint map with distinct keys, every key having a patch
  stack with a patch for every level: the call returns a map, and a keypoint id is in the
  output map iff it is in the input map and, with \<open>t1\<close> the input translation and the
  offset \<open>claimed_offset\<close> (zero when the cameras coincide or the guess type is
  \<^verbatim>\<open>SAME_PIXEL\<close>, \<^verbatim>\<open>viewOffset\<close> at the current depth guess otherwise), (i) \<open>t1\<close> minus
  the offset is inside the level-0 image of the destination pyramid, (ii) the forward
  \<^verbatim>\<open>trackPoint\<close> on the destination pyramid succeeds, (iii) the backward \<^verbatim>\<open>trackPoint\<close> on
  the source pyramid, started from the forward result with the offset added back,
  succeeds, and (iv) the squared distance between \<open>t1\<close> and the recovered translation is
  below \<^verbatim>\<open>optical_flow_max_recovered_dist2\<close>; the entry then holds the forward-tracked
  warp, the descriptor of the input and \<^verbatim>\<open>detected_by_opt_flow = true\<close>.
\<close>

theorem trackPoints_bidirectional_contract:
  assumes "distinct (map fst keypoint_map_1)"
    and "\<forall>i \<in> fst ` set keypoint_map_1.
           \<exists>pv. patches this i = Some pv \<and> nat (optical_flow_levels config + 1) \<le> length pv"
    and "store_depth_guess this store (depth_guess this) = Some store1"
  shows "\<exists>keypoint_map_2.
      trackPoints config calib ext this store pyr_1 pyr_2 keypoint_map_1 cam1 cam2
        = Some (keypoint_map_2, store1)
    \<and> distinct (map fst keypoint_map_2)
    \<and> (\<forall>i k. map_of keypoint_map_2 i = Some k \<longleftrightarrow>
         (\<exists>init pv Wf Wb.
            map_of keypoint_map_1 i = Some init \<and> patches this i = Some pv
          \<and> in_image (lvl pyr_2 0)
              (vsub (translation (pose init))
                 (claimed_offset config calib (depth_guess this) cam1 cam2 (translation (pose init))))
          \<and> trackPoint config ext pyr_2 pv
              ((pose init)\<lparr>translation := vsub (translation (pose init))
                 (claimed_offset config calib (depth_guess this) cam1 cam2
                    (translation (pose init)))\<rparr>) = Some (True, Wf)
          \<and> trackPoint config ext pyr_1 pv
              (Wf\<lparr>translation := vadd (translation Wf)
                 (claimed_offset config calib (depth_guess this) cam1 cam2
                    (translation (pose init)))\<rparr>) = Some (True, Wb)
          \<and> squaredNorm (vsub (translation (pose init)) (translation Wb))
               < optical_flow_max_recovered_dist2 config
          \<and> k = \<lparr>pose = Wf, descriptor = descriptor init, detected_by_opt_flow = True\<rparr>))"
proof -
  have "\<forall>kv \<in> set keypoint_map_1.
          compute_func_body config calib ext (patches this) (depth_guess this) pyr_1 pyr_2 cam1 cam2
            (fst kv) (snd kv) \<noteq> None"
  proof
    fix kv assume "kv \<in> set keypoint_map_1"
    then have "fst kv \<in> fst ` set keypoint_map_1" by simp
    with assms(2) obtain pv where "patches this (fst kv) = Some pv"
      "nat (optical_flow_levels config + 1) \<le> length pv" by blast
    then show "compute_func_body config calib ext (patches this) (depth_guess this) pyr_1 pyr_2
        cam1 cam2 (fst kv) (snd kv) \<noteq> None"
      by (rule compute_func_body_total)
  qed
  from compute_func_total [OF this] obtain m where
    m: "compute_func config calib ext (patches this) (depth_guess this) pyr_1 pyr_2 cam1 cam2
          keypoint_map_1 [] = Some m" by blast
  have tp: "trackPoints config calib ext this store pyr_1 pyr_2 keypoint_map_1 cam1 cam2
        = Some (m, store1)"
    using m assms(3) by (simp add: trackPoints_def)
  have d: "distinct (map fst m)"
    using compute_func_distinct [OF m] by simp
  have "map_of m i = Some k \<longleftrightarrow>
         (\<exists>init pv Wf Wb.
            map_of keypoint_map_1 i = Some init \<and> patches this i = Some pv
          \<and> in_image (lvl pyr_2 0)
              (vsub (translation (pose init))
                 (claimed_offset config calib (depth_guess this) cam1 cam2 (translation (pose init))))
          \<and> trackPoint config ext pyr_2 pv
              ((pose init)\<lparr>translation := vsub (translation (pose init))
                 (claimed_offset config calib (depth_guess this) cam1 cam2
                    (translation (pose init)))\<rparr>) = Some (True, Wf)
          \<and> trackPoint config ext pyr_1 pv
              (Wf\<lparr>translation := vadd (translation Wf)
                 (claimed_offset config calib (depth_guess this) cam1 cam2
                    (translation (pose init)))\<rparr>) = Some (True, Wb)
          \<and> squaredNorm (vsub (translation (pose init)) (translation Wb))
               < optical_flow_max_recovered_dist2 config
          \<and> k = \<lparr>pose = Wf, descriptor = descriptor init, detected_by_opt_flow = True\<rparr>)"
    (is "?L \<longleftrightarrow> ?R") for i k
  proof (cases "map_of keypoint_map_1 i")
    case None
    with compute_func_map_of [OF m assms(1), of i] show ?thesis by simp
  next
    case (Some init)
    then have "i \<in> fst ` set keypoint_map_1"
      by (metis map_of_eq_None_iff option.distinct(1))
    with assms(2) obtain pv where pv: "patches this i = Some pv" by blast
    have "?L \<longleftrightarrow> compute_func_body config calib ext (patches this) (depth_guess this)
        pyr_1 pyr_2 cam1 cam2 i init = Some (Some k)"
      using compute_func_map_of [OF m assms(1), of i] Some
      by (auto split: option.splits)
    also have "\<dots> \<longleftrightarrow> ?R"
      using compute_func_body_accept [of "patches this" i pv config calib ext "depth_guess this"
          pyr_1 pyr_2 cam1 cam2 init k, OF pv] Some pv by simp
    finally show ?thesis .
  qed
  with tp d show ?thesis by blast
qed


theorem trackPoints_bidirectional_contract_witness:
  "\<exists>keypoint_map_2 store1.
      trackPoints demo_config (demo_calib 2) demo_ext
        (demo_tracker [[(0, demo_keypoint 8 8 False)], []]) demo_store
        (demo_setFromImage (demo_image 8) 1) (demo_setFromImage (demo_image 7) 1)
        [(0, demo_keypoint 8 8 False)] 0 1 = Some (keypoint_map_2, store1)
    \<and> distinct (map fst keypoint_map_2)
    \<and> map_of keypoint_map_2 0 = Some (demo_keypoint 7 8 True)
    \<and> map_of keypoint_map_2 1 = None"
proof -
  let ?trk = "demo_tracker [[(0, demo_keypoint 8 8 False)], []]"
  have h1: "distinct (map fst [(0 :: KeypointId, demo_keypoint 8 8 False)])" by simp
  have h2: "\<forall>i \<in> fst ` set [(0 :: KeypointId, demo_keypoint 8 8 False)].
      \<exists>pv. patches ?trk i = Some pv \<and> nat (optical_flow_levels demo_config + 1) \<le> length pv"
    by (simp add: rig_defs demo_config_def)
  have h3: "store_depth_guess ?trk demo_store (depth_guess ?trk) =
      Some (demo_store(0 \<mapsto> (demo_bundle [Some (demo_image 8), Some (demo_image 7),
         Some (demo_image 7)])\<lparr>in_depth_guess := 2\<rparr>))"
    by (simp add: store_depth_guess_def rig_defs demo_config_def)
  have ev: "map_option fst (trackPoints demo_config (demo_calib 2) demo_ext ?trk demo_store
       (demo_setFromImage (demo_image 8) 1) (demo_setFromImage (demo_image 7) 1)
       [(0, demo_keypoint 8 8 False)] 0 1) = Some [(0, demo_keypoint 7 8 True)]"
    by (simp add: trackPoints_def store_depth_guess_def compute_func_body_def
        trackPoint_def trackPoint_loop.simps scale_of_def trackPointAtLevel_def
        trackPointAtLevel_loop.simps demo_defs vec_defs rig_defs)
  from trackPoints_bidirectional_contract [OF h1 h2 h3, of "demo_calib 2" demo_ext
      "demo_setFromImage (demo_image 8) 1" "demo_setFromImage (demo_image 7) 1" 0 1]
  obtain m where m: "trackPoints demo_config (demo_calib 2) demo_ext ?trk demo_store
        (demo_setFromImage (demo_image 8) 1) (demo_setFromImage (demo_image 7) 1)
        [(0, demo_keypoint 8 8 False)] 0 1
      = Some (m, demo_store(0 \<mapsto> (demo_bundle [Some (demo_image 8), Some (demo_image 7),
         Some (demo_image 7)])\<lparr>in_depth_guess := 2\<rparr>))"
    and d: "distinct (map fst m)"
    by blast
  from m ev have "m = [(0, demo_keypoint 7 8 True)]" by simp
  with m d show ?thesis by simp
qed

subsection \<open>The epipolar filter\<close>

text \<open>
  With ids below \<open>2 ^ 31\<close> the conversion through \<^verbatim>\<open>int\<close> is the identity, and
  \<^verbatim>\<open>filterPoints\<close> erases from camera 1, and from camera 1 only, exactly the ids present
  in both cameras whose unprojection fails or whose residual exceeds the threshold
  (\<open>filterPoints_small_ids\<close>); with fewer than two cameras it changes nothing.
\<close>

lemma id_through_int_small:
  assumes "unat i < 2 ^ 31"
  shows "id_through_int i = i"
proof -
  have "unat i < 2147483648" using assms by simp
  then have "int (unat i) < 2147483648" by linarith
  then have u: "uint i < 2 ^ 31" by simp
  have u32: "uint i < 2 ^ 32" using u by simp
  have a: "uint (ucast i :: 32 word) = uint i"
    using u32 by (simp add: unsigned_ucast_eq take_bit_int_eq_self)
  have ge: "- (2 ^ 31) \<le> uint i"
    by (rule order.trans [of _ 0]) simp_all
  have "signed_take_bit 31 (uint i) = uint i"
    using ge u by (rule signed_take_bit_int_eq_self)
  then have b: "sint (ucast i :: 32 word) = uint i"
    unfolding sint_uint a by simp
  show ?thesis
    unfolding id_through_int_def scast_eq b by simp
qed

lemma map_of_foldl_delete:
  "map_of (foldl (\<lambda>m lm. AList.delete (f lm) m) m lms) k =
     (if k \<in> f ` set lms then None else map_of m k)"
  by (induction lms arbitrary: m) (auto simp: delete_conv)

lemma common_observations_iff:
  assumes "distinct (map fst kpts1)"
  shows "obs \<in> set (common_observations kpts0 kpts1) \<longleftrightarrow>
     (\<exists>k0 k1. map_of kpts0 (fst obs) = Some k0 \<and> map_of kpts1 (fst obs) = Some k1
        \<and> snd obs = (translation (pose k0), translation (pose k1)))"
proof -
  have "obs \<in> set (common_observations kpts0 kpts1) \<longleftrightarrow>
     (\<exists>kv \<in> set kpts1. \<exists>k0. map_of kpts0 (fst kv) = Some k0
        \<and> obs = (fst kv, translation (pose k0), translation (pose (snd kv))))"
    unfolding common_observations_def set_concat set_map
    by (auto split: option.splits) (metis fst_conv snd_conv)+
  also have "\<dots> \<longleftrightarrow>
     (\<exists>k0 k1. map_of kpts0 (fst obs) = Some k0 \<and> (fst obs, k1) \<in> set kpts1
        \<and> snd obs = (translation (pose k0), translation (pose k1)))"
  proof
    assume "\<exists>kv \<in> set kpts1. \<exists>k0. map_of kpts0 (fst kv) = Some k0
        \<and> obs = (fst kv, translation (pose k0), translation (pose (snd kv)))"
    then obtain kv k0 where kv: "kv \<in> set kpts1" "map_of kpts0 (fst kv) = Some k0"
      "obs = (fst kv, translation (pose k0), translation (pose (snd kv)))" by blast
    from kv(1) have "(fst kv, snd kv) \<in> set kpts1" by simp
    with kv(2,3) show "\<exists>k0 k1. map_of kpts0 (fst obs) = Some k0 \<and> (fst obs, k1) \<in> set kpts1
        \<and> snd obs = (translation (pose k0), translation (pose k1))"
      by (intro exI [of _ k0] exI [of _ "snd kv"]) simp
  next
    assume "\<exists>k0 k1. map_of kpts0 (fst obs) = Some k0 \<and> (fst obs, k1) \<in> set kpts1
        \<and> snd obs = (translation (pose k0), translation (pose k1))"
    then obtain k0 k1 where k: "map_of kpts0 (fst obs) = Some k0" "(fst obs, k1) \<in> set kpts1"
      "snd obs = (translation (pose k0), translation (pose k1))" by blast
    have "obs = (fst obs, snd obs)" by simp
    with k show "\<exists>kv \<in> set kpts1. \<exists>k0. map_of kpts0 (fst kv) = Some k0
        \<and> obs = (fst kv, translation (pose k0), translation (pose (snd kv)))"
      by (intro bexI [of _ "(fst obs, k1)"] exI [of _ k0]) simp_all
  qed
  also have "\<dots> \<longleftrightarrow>
     (\<exists>k0 k1. map_of kpts0 (fst obs) = Some k0 \<and> map_of kpts1 (fst obs) = Some k1
        \<and> snd obs = (translation (pose k0), translation (pose k1)))"
    using assms by simp
  finally show ?thesis .
qed

lemma filterPoints_small_ids:
  assumes "2 \<le> length (intrinsics calib)" "transforms this = Some tr"
    and "2 \<le> length (keypoints tr)"
    and "distinct (map fst (keypoints tr ! 1))"
    and "\<forall>i \<in> fst ` set (keypoints tr ! 1). unat i < 2 ^ 31"
  shows "\<exists>this1 tr1. filterPoints config calib this = Some this1 \<and> transforms this1 = Some tr1
     \<and> length (keypoints tr1) = length (keypoints tr)
     \<and> (\<forall>j. j \<noteq> 1 \<longrightarrow> keypoints tr1 ! j = keypoints tr ! j)
     \<and> (\<forall>i. map_of (keypoints tr1 ! 1) i =
          (case map_of (keypoints tr ! 1) i of
             None \<Rightarrow> None
           | Some k1 \<Rightarrow>
               (case map_of (keypoints tr ! 0) i of
                  None \<Rightarrow> Some k1
                | Some k0 \<Rightarrow>
                    if to_remove config calib (E this) (i, translation (pose k0), translation (pose k1))
                    then None else Some k1)))"
proof -
  define obs where "obs = common_observations (keypoints tr ! 0) (keypoints tr ! 1)"
  define lms where "lms = map fst (filter (to_remove config calib (E this)) obs)"
  define kpts1 where "kpts1 = foldl (\<lambda>m lm. AList.delete (id_through_int lm) m) (keypoints tr ! 1) lms"
  have fp: "filterPoints config calib this =
      Some (this\<lparr>transforms := Some (tr\<lparr>keypoints := (keypoints tr)[1 := kpts1]\<rparr>)\<rparr>)"
    using assms(1,2,3) by (simp add: filterPoints_def Let_def obs_def lms_def kpts1_def)
  have small: "id_through_int lm = lm" if "lm \<in> set lms" for lm
  proof -
    from that obtain o1 where "o1 \<in> set obs" "fst o1 = lm" by (auto simp: lms_def)
    then have "map_of (keypoints tr ! 1) lm \<noteq> None"
      using common_observations_iff [OF assms(4)] by (auto simp: obs_def)
    then have "lm \<in> fst ` set (keypoints tr ! 1)" by (simp add: map_of_eq_None_iff)
    with assms(5) id_through_int_small show ?thesis by blast
  qed
  then have img: "id_through_int ` set lms = set lms" by (simp add: image_def)
  have mem: "i \<in> set lms \<longleftrightarrow>
      (\<exists>k0 k1. map_of (keypoints tr ! 0) i = Some k0 \<and> map_of (keypoints tr ! 1) i = Some k1
         \<and> to_remove config calib (E this) (i, translation (pose k0), translation (pose k1)))" for i
  proof
    assume "i \<in> set lms"
    then obtain o1 where o1: "o1 \<in> set obs" "to_remove config calib (E this) o1" "fst o1 = i"
      by (auto simp: lms_def)
    from o1(1) obtain k0 k1 where k: "map_of (keypoints tr ! 0) (fst o1) = Some k0"
      "map_of (keypoints tr ! 1) (fst o1) = Some k1"
      "snd o1 = (translation (pose k0), translation (pose k1))"
      unfolding obs_def common_observations_iff [OF assms(4)] by blast
    have "o1 = (i, translation (pose k0), translation (pose k1))"
      using o1(3) k(3) by (simp add: prod_eq_iff)
    with o1(2,3) k(1,2) show "\<exists>k0 k1. map_of (keypoints tr ! 0) i = Some k0
         \<and> map_of (keypoints tr ! 1) i = Some k1
         \<and> to_remove config calib (E this) (i, translation (pose k0), translation (pose k1))"
      by (intro exI [of _ k0] exI [of _ k1]) simp
  next
    assume "\<exists>k0 k1. map_of (keypoints tr ! 0) i = Some k0
         \<and> map_of (keypoints tr ! 1) i = Some k1
         \<and> to_remove config calib (E this) (i, translation (pose k0), translation (pose k1))"
    then obtain k0 k1 where k: "map_of (keypoints tr ! 0) i = Some k0"
      "map_of (keypoints tr ! 1) i = Some k1"
      "to_remove config calib (E this) (i, translation (pose k0), translation (pose k1))"
      by blast
    have "(i, translation (pose k0), translation (pose k1)) \<in> set obs"
      unfolding obs_def common_observations_iff [OF assms(4)] using k(1,2) by simp
    with k(3) have "(i, translation (pose k0), translation (pose k1))
        \<in> set (filter (to_remove config calib (E this)) obs)" by simp
    then have "fst (i, translation (pose k0), translation (pose k1)) \<in> set lms"
      unfolding lms_def set_map by (rule imageI)
    then show "i \<in> set lms" by simp
  qed
  have "map_of kpts1 i =
          (case map_of (keypoints tr ! 1) i of
             None \<Rightarrow> None
           | Some k1 \<Rightarrow>
               (case map_of (keypoints tr ! 0) i of
                  None \<Rightarrow> Some k1
                | Some k0 \<Rightarrow>
                    if to_remove config calib (E this) (i, translation (pose k0), translation (pose k1))
                    then None else Some k1))" for i
    unfolding kpts1_def map_of_foldl_delete img mem
    by (auto split: option.splits)
  with fp assms(3) show ?thesis by simp
qed

lemma filterPoints_single_camera:
  "length (intrinsics calib) < 2 \<Longrightarrow> filterPoints config calib this = Some this"
  by (simp add: filterPoints_def)

text \<open>
  C4. The epipolar filter is to erase from camera 1 every id that is present in both
  cameras and whose residual exceeds \<^verbatim>\<open>optical_flow_epipolar_error\<close>. The loop variable of
  the erasing loop is an \<^verbatim>\<open>int\<close>: the observation pair with residual 3 is to be removed
  (\<open>to_remove\<close>), and it is erased under id 5, but under id \<open>2 ^ 31\<close> camera 1 keeps it.
\<close>

theorem filterPoints_large_id_not_erased:
  "to_remove demo_config (demo_calib 2) demo_E (2147483648, (8, 8), (7, 11))
   \<and> camera_keypoints 1 (demo_epipolar 2147483648) = Some [(2147483648, demo_keypoint 7 11 True)]
   \<and> camera_keypoints 1 (demo_epipolar 5) = Some []"
  by (simp add: demo_epipolar_def camera_keypoints_def filterPoints_def common_observations_def
      to_remove_def epipolar_residual_def dot_def id_through_int_def demo_defs rig_defs vec_defs)

subsection \<open>Stereo seeding\<close>

lemmas addPoints_defs = addPoints_def addPoints_detect_def detect_new_keypoints_def
  addPoints_stereo_def patch_stack_def
  emplace_def trackPoints_def store_depth_guess_def compute_func_body_def
  trackPoint_def trackPoint_loop.simps scale_of_def trackPointAtLevel_def
  trackPointAtLevel_loop.simps upto.simps Let_def

lemma map_of_emplace:
  "map_of (emplace kv m) i = (case map_of m i of Some k \<Rightarrow> Some k | None \<Rightarrow> map_of [kv] i)"
  by (cases kv) (auto simp: emplace_def map_add_def split: option.splits)

lemma map_of_foldl_emplace:
  "map_of (foldl (\<lambda>m kv. emplace kv m) m kvs) i =
     (case map_of m i of Some k \<Rightarrow> Some k | None \<Rightarrow> map_of kvs i)"
proof (induction kvs arbitrary: m)
  case Nil
  then show ?case by (simp split: option.splits)
next
  case (Cons kv kvs)
  show ?case
    by (cases kv) (simp add: Cons.IH map_of_emplace split: option.splits)
qed

text \<open>
  C5, as stated, fails for a third camera: with three cameras, \<^verbatim>\<open>addPoints\<close> seeds the new
  keypoint 1 in camera 1 and leaves the map of camera 2 empty, although bidirectional
  tracking from camera 0 to camera 2 matches it (\<open>demo_seed 2\<close>).
\<close>

theorem addPoints_third_camera_counterexample:
  "camera_keypoints 1 (map_option fst
      (addPoints demo_config (demo_calib 3) demo_ext (demo_tracker [[], [], []]) demo_store))
     = Some [(1, demo_keypoint 7 8 True)]
   \<and> camera_keypoints 2 (map_option fst
      (addPoints demo_config (demo_calib 3) demo_ext (demo_tracker [[], [], []]) demo_store))
     = Some []
   \<and> demo_seed 2 = Some [(1, demo_keypoint 7 8 True)]"
  by (simp add: camera_keypoints_def demo_seed_def addPoints_defs demo_defs vec_defs rig_defs)

text \<open>
  C5, amended. In a rig with more than one camera, \<^verbatim>\<open>addPoints\<close> matches the newly detected
  keypoints by \<^verbatim>\<open>trackPoints\<close> from camera 0 to camera 1, with the configured guess policy
  and the current depth guess; the map of camera 1 afterwards is its map before, extended
  by exactly the matches returned (an id already present keeps its entry); the map of
  every other camera is the one detection left, so no camera beyond camera 1 is seeded.
\<close>

theorem addPoints_seeds_camera_1:
  assumes "length (intrinsics calib) > 1"
    and "addPoints config calib ext this store = Some (this2, store2)"
  shows "\<exists>this1 new_kpts0 pyrs new_kpts1 tr1 tr2.
      addPoints_detect config ext this store = Some (this1, new_kpts0)
    \<and> pyramid this1 = Some pyrs \<and> transforms this1 = Some tr1 \<and> transforms this2 = Some tr2
    \<and> trackPoints config calib ext this1 store (pyrs ! 0) (pyrs ! 1) new_kpts0 0 1
        = Some (new_kpts1, store2)
    \<and> length (keypoints tr2) = length (keypoints tr1)
    \<and> (\<forall>i. map_of (keypoints tr2 ! 1) i =
          (case map_of (keypoints tr1 ! 1) i of Some k \<Rightarrow> Some k | None \<Rightarrow> map_of new_kpts1 i))
    \<and> (\<forall>j. j \<noteq> 1 \<longrightarrow> keypoints tr2 ! j = keypoints tr1 ! j)"
proof -
  from assms(2) obtain this1 new_kpts0 where
    det: "addPoints_detect config ext this store = Some (this1, new_kpts0)"
    and st: "addPoints_stereo config calib ext this1 store new_kpts0 = Some (this2, store2)"
    by (auto simp: addPoints_def split: option.splits)
  from st assms(1) obtain pyrs new_kpts1 tr1 where
    p: "pyramid this1 = Some pyrs" "\<not> length pyrs < 2"
    and tp: "trackPoints config calib ext this1 store (pyrs ! 0) (pyrs ! 1) new_kpts0 0 1
        = Some (new_kpts1, store2)"
    and tr1: "transforms this1 = Some tr1" "\<not> length (keypoints tr1) < 2"
    and this2: "this2 = this1\<lparr>transforms := Some (tr1\<lparr>keypoints := (keypoints tr1)
          [1 := foldl (\<lambda>m kv. emplace kv m) (keypoints tr1 ! 1) new_kpts1]\<rparr>)\<rparr>"
    by (auto simp: addPoints_stereo_def split: option.splits if_splits)
  define tr2 where "tr2 = tr1\<lparr>keypoints := (keypoints tr1)
          [1 := foldl (\<lambda>m kv. emplace kv m) (keypoints tr1 ! 1) new_kpts1]\<rparr>"
  have a: "transforms this2 = Some tr2" by (simp add: this2 tr2_def)
  have b: "length (keypoints tr2) = length (keypoints tr1)" by (simp add: tr2_def)
  have c: "map_of (keypoints tr2 ! 1) i =
          (case map_of (keypoints tr1 ! 1) i of Some k \<Rightarrow> Some k | None \<Rightarrow> map_of new_kpts1 i)" for i
    using tr1(2) by (simp add: tr2_def map_of_foldl_emplace)
  have d: "j \<noteq> 1 \<Longrightarrow> keypoints tr2 ! j = keypoints tr1 ! j" for j
    by (simp add: tr2_def)
  from det p(1) tr1(1) a tp b c d show ?thesis by blast
qed


theorem addPoints_seeds_camera_1_witness:
  "\<exists>this2 store2 tr2 this1 new_kpts0 tr1.
      addPoints demo_config (demo_calib 3) demo_ext (demo_tracker [[], [], []]) demo_store
        = Some (this2, store2)
    \<and> transforms this2 = Some tr2
    \<and> keypoints tr2 ! 1 = [(1, demo_keypoint 7 8 True)]
    \<and> keypoints tr2 ! 2 = []
    \<and> addPoints_detect demo_config demo_ext (demo_tracker [[], [], []]) demo_store
        = Some (this1, new_kpts0)
    \<and> transforms this1 = Some tr1
    \<and> keypoints tr2 ! 2 = keypoints tr1 ! 2"
proof -
  have h1: "length (intrinsics (demo_calib 3)) > 1" by (simp add: rig_defs)
  have "addPoints demo_config (demo_calib 3) demo_ext (demo_tracker [[], [], []]) demo_store \<noteq> None"
    by (simp add: addPoints_defs demo_defs vec_defs rig_defs)
  then obtain this2 store2 where
    r: "addPoints demo_config (demo_calib 3) demo_ext (demo_tracker [[], [], []]) demo_store
        = Some (this2, store2)" by fastforce
  from addPoints_seeds_camera_1 [OF h1 r] obtain this1 new_kpts0 tr1 tr2 where
    t: "addPoints_detect demo_config demo_ext (demo_tracker [[], [], []]) demo_store
        = Some (this1, new_kpts0)"
      "transforms this1 = Some tr1" "transforms this2 = Some tr2"
      "\<forall>j. j \<noteq> 1 \<longrightarrow> keypoints tr2 ! j = keypoints tr1 ! j"
    by blast
  have "camera_keypoints 1 (map_option fst
      (addPoints demo_config (demo_calib 3) demo_ext (demo_tracker [[], [], []]) demo_store))
     = Some [(1, demo_keypoint 7 8 True)]"
    "camera_keypoints 2 (map_option fst
      (addPoints demo_config (demo_calib 3) demo_ext (demo_tracker [[], [], []]) demo_store))
     = Some []"
    by (simp_all add: camera_keypoints_def addPoints_defs demo_defs vec_defs rig_defs)
  with r t(3) have k: "keypoints tr2 ! 1 = [(1, demo_keypoint 7 8 True)]" "keypoints tr2 ! 2 = []"
    by (simp_all add: camera_keypoints_def)
  from t(4) have "keypoints tr2 ! 2 = keypoints tr1 ! 2" by simp
  with r t(1,2,3) k show ?thesis by blast
qed

subsection \<open>Detection: ids and the patch store\<close>

lemma unat_plus_one:
  fixes x :: "64 word"
  assumes "unat x + 1 < 2 ^ 64"
  shows "unat (x + 1) = unat x + 1"
proof -
  have "unat (x + 1) = (unat x + 1) mod 2 ^ 64"
    by (simp add: unat_word_ariths)
  also have "\<dots> = unat x + 1" using assms by simp
  finally show ?thesis .
qed

lemma addPoints_loop_props:
  assumes "addPoints_loop config ext pyr0 kd idx (ps, kp0, nk, lid) = Some (ps1, kp1, nk1, lid1)"
    and "unat lid + length idx < 2 ^ 64"
    and "\<forall>i. ps i \<noteq> None \<longrightarrow> unat i < unat lid"
  shows "unat lid1 = unat lid + length idx
     \<and> (\<forall>i. unat i < unat lid \<longrightarrow> ps1 i = ps i \<and> map_of kp1 i = map_of kp0 i)
     \<and> (\<forall>i. ps1 i \<noteq> None \<longrightarrow> unat i < unat lid1)
     \<and> (\<forall>n < length idx.
           ps1 (of_nat (unat lid + n)) = Some (patch_stack config ext pyr0 (corners kd ! (idx ! n)))
         \<and> map_of kp1 (of_nat (unat lid + n)) =
             Some \<lparr>pose = \<lparr>linear = mat2_identity, translation = corners kd ! (idx ! n)\<rparr>,
                   descriptor = corner_descriptors kd ! (idx ! n),
                   detected_by_opt_flow = False\<rparr>)"
  using assms
proof (induction idx arbitrary: ps kp0 nk lid)
  case Nil
  then show ?case by simp
next
  case (Cons i0 rest)
  define k where "k = \<lparr>pose = \<lparr>linear = mat2_identity, translation = corners kd ! i0\<rparr>,
       descriptor = corner_descriptors kd ! i0, detected_by_opt_flow = False\<rparr>"
  define stack where "stack = patch_stack config ext pyr0 (corners kd ! i0)"
  have none: "ps lid = None" using Cons.prems(3) by (cases "ps lid") auto
  have run: "addPoints_loop config ext pyr0 kd rest
      (ps(lid \<mapsto> stack), AList.update lid k kp0, AList.update lid k nk, lid + 1)
      = Some (ps1, kp1, nk1, lid1)"
    using Cons.prems(1) none
    by (simp add: Let_def k_def stack_def split: if_splits)
  have u: "unat (lid + 1) = unat lid + 1"
    using Cons.prems(2) by (intro unat_plus_one) simp
  have b: "unat (lid + 1) + length rest < 2 ^ 64" using Cons.prems(2) u by simp
  have inv: "\<forall>i. (ps(lid \<mapsto> stack)) i \<noteq> None \<longrightarrow> unat i < unat (lid + 1)"
    using Cons.prems(3) u by auto
  note IH = Cons.IH [OF run b inv]
  have p1: "unat lid1 = unat lid + length (i0 # rest)" using IH u by simp
  have p2: "ps1 i = ps i \<and> map_of kp1 i = map_of kp0 i" if "unat i < unat lid" for i
  proof -
    have ne: "i \<noteq> lid" using that by auto
    have "unat i < unat (lid + 1)" using that u by simp
    with IH have "ps1 i = (ps(lid \<mapsto> stack)) i \<and> map_of kp1 i = map_of (AList.update lid k kp0) i"
      by blast
    with ne show ?thesis by (simp add: update_conv')
  qed
  have p3: "\<forall>i. ps1 i \<noteq> None \<longrightarrow> unat i < unat lid1" using IH by blast
  have p4: "ps1 (of_nat (unat lid + n)) = Some (patch_stack config ext pyr0 (corners kd ! ((i0 # rest) ! n)))
         \<and> map_of kp1 (of_nat (unat lid + n)) =
             Some \<lparr>pose = \<lparr>linear = mat2_identity, translation = corners kd ! ((i0 # rest) ! n)\<rparr>,
                   descriptor = corner_descriptors kd ! ((i0 # rest) ! n),
                   detected_by_opt_flow = False\<rparr>" if "n < length (i0 # rest)" for n
  proof (cases n)
    case 0
    have "unat lid < unat (lid + 1)" using u by simp
    with IH have "ps1 lid = (ps(lid \<mapsto> stack)) lid \<and> map_of kp1 lid = map_of (AList.update lid k kp0) lid"
      by blast
    then show ?thesis using 0 by (simp add: update_conv' k_def stack_def)
  next
    case (Suc m)
    then have "m < length rest" using that by simp
    with IH have "ps1 (of_nat (unat (lid + 1) + m)) = Some (patch_stack config ext pyr0 (corners kd ! (rest ! m)))
         \<and> map_of kp1 (of_nat (unat (lid + 1) + m)) =
             Some \<lparr>pose = \<lparr>linear = mat2_identity, translation = corners kd ! (rest ! m)\<rparr>,
                   descriptor = corner_descriptors kd ! (rest ! m),
                   detected_by_opt_flow = False\<rparr>" by blast
    moreover have "unat (lid + 1) + m = unat lid + n" using u Suc by simp
    ultimately show ?thesis using Suc by simp
  qed
  from p1 p2 p3 p4 show ?case by blast
qed


lemma addPoints_detect_frame:
  assumes "addPoints_detect config ext this store = Some (this1, new_kpts0)"
  shows "\<exists>tr pyrs img m pts patches1 kpts0 lid.
      transforms this = Some tr \<and> pyramid this = Some pyrs
    \<and> addPoints_loop config ext (pyrs ! 0) (detect_new_keypoints config ext img m pts)
          [0..<length (corners (detect_new_keypoints config ext img m pts))]
          (patches this, keypoints tr ! 0, [], last_keypoint_id this)
        = Some (patches1, kpts0, new_kpts0, lid)
    \<and> keypoints tr \<noteq> []
    \<and> this1 = this\<lparr>patches := patches1, last_keypoint_id := lid,
                     transforms := Some (tr\<lparr>keypoints := (keypoints tr)[0 := kpts0]\<rparr>)\<rparr>"
  using assms
  unfolding addPoints_detect_def Let_def
  by (simp split: option.splits if_splits prod.splits) blast

lemma addPoints_stereo_frame:
  assumes "addPoints_stereo config calib ext this store new_kpts0 = Some (this2, store2)"
    and "transforms this = Some tr"
  shows "\<exists>tr2. this2 = this\<lparr>transforms := Some tr2\<rparr>
     \<and> length (keypoints tr2) = length (keypoints tr)
     \<and> keypoints tr2 ! 0 = keypoints tr ! 0
     \<and> input_images tr2 = input_images tr \<and> res_t_ns tr2 = res_t_ns tr"
proof (cases "length (intrinsics calib) > 1")
  case False
  with assms have "this2 = this" by (simp add: addPoints_stereo_def)
  then have "this2 = this\<lparr>transforms := Some tr\<rparr>" using assms(2) by simp
  then show ?thesis by blast
next
  case True
  with assms obtain kps where "this2 = this\<lparr>transforms := Some (tr\<lparr>keypoints := (keypoints tr)[1 := kps]\<rparr>)\<rparr>"
    by (auto simp: addPoints_stereo_def split: option.splits if_splits)
  then show ?thesis by (intro exI [of _ "tr\<lparr>keypoints := (keypoints tr)[1 := kps]\<rparr>"]) simp
qed

lemma filterPoints_frame:
  assumes "filterPoints config calib this = Some this2"
    and "transforms this = Some tr"
  shows "\<exists>tr2. this2 = this\<lparr>transforms := Some tr2\<rparr>
     \<and> length (keypoints tr2) = length (keypoints tr)
     \<and> keypoints tr2 ! 0 = keypoints tr ! 0
     \<and> input_images tr2 = input_images tr \<and> res_t_ns tr2 = res_t_ns tr"
proof (cases "length (intrinsics calib) < 2")
  case True
  with assms have "this2 = this" by (simp add: filterPoints_def)
  then have "this2 = this\<lparr>transforms := Some tr\<rparr>" using assms(2) by simp
  then show ?thesis by blast
next
  case False
  with assms obtain kps where "this2 = this\<lparr>transforms := Some (tr\<lparr>keypoints := (keypoints tr)[1 := kps]\<rparr>)\<rparr>"
    by (auto simp: filterPoints_def Let_def split: option.splits if_splits)
  then show ?thesis by (intro exI [of _ "tr\<lparr>keypoints := (keypoints tr)[1 := kps]\<rparr>"]) simp
qed

lemma processFrame_branch_frame:
  assumes "processFrame_branch config calib ext this store t ptr bundle pyrs = Some (this2, store2)"
  shows "\<exists>kps old. this2 = this\<lparr>t_ns := t, old_pyramid := old, pyramid := Some pyrs,
            transforms := Some \<lparr>res_t_ns = t, keypoints = kps, input_images = Some ptr\<rparr>\<rparr>"
proof (cases "t_ns this < 0")
  case True
  with assms have "this2 = this\<lparr>t_ns := t, old_pyramid := old_pyramid this, pyramid := Some pyrs,
            transforms := Some \<lparr>res_t_ns = t, keypoints = replicate (length (intrinsics calib)) [],
               input_images = Some ptr\<rparr>\<rparr>"
    by (auto simp: processFrame_branch_def)
  then show ?thesis by blast
next
  case False
  with assms show ?thesis
    by (auto simp: processFrame_branch_def split: option.splits)
qed

lemma processFrame_emit_result:
  assumes "processFrame_emit config this store = Some (this2, store2)"
  shows "frame_counter this2 = frame_counter this + 1 \<and> patches this2 = patches this
     \<and> last_keypoint_id this2 = last_keypoint_id this \<and> transforms this2 = transforms this
     \<and> pyramid this2 = pyramid this \<and> depth_guess this2 = depth_guess this
     \<and> (case output_queue this of
           None \<Rightarrow> output_queue this2 = None
         | Some q \<Rightarrow>
             (word_of_int (optical_flow_skip_frames config) :: 64 word) \<noteq> 0
           \<and> output_queue this2 =
               Some (if frame_counter this mod word_of_int (optical_flow_skip_frames config) = 0
                     then q @ [transforms this] else q))"
  using assms
  by (auto simp: processFrame_emit_def split: option.splits if_splits)

lemma processFrame_cases:
  assumes "processFrame config calib ext this store t ptr = Some (this5, store5)"
  shows "(this5 = this \<and> store5 = store
          \<and> (\<exists>bundle. store ptr = Some bundle \<and> None \<in> set (img_data bundle)))
     \<or> (\<exists>bundle pyrs this1 store1 this2 new_kpts0 this3 store3 this4.
          store ptr = Some bundle \<and> None \<notin> set (img_data bundle)
        \<and> processFrame_branch config calib ext this store t ptr bundle pyrs = Some (this1, store1)
        \<and> addPoints_detect config ext this1 store1 = Some (this2, new_kpts0)
        \<and> addPoints_stereo config calib ext this2 store1 new_kpts0 = Some (this3, store3)
        \<and> filterPoints config calib this3 = Some this4
        \<and> processFrame_emit config this4 store3 = Some (this5, store5))"
proof -
  from assms obtain bdl where b: "store ptr = Some bdl"
    by (auto simp: processFrame_def split: option.splits)
  show ?thesis
  proof (cases "None \<in> set (img_data bdl)")
    case True
    with assms b have "this5 = this \<and> store5 = store" by (auto simp: processFrame_def)
    with b True show ?thesis by blast
  next
    case False
    then have nf: "\<not> (\<exists>v \<in> set (img_data bdl). v = None)" by auto
    from assms b nf obtain pyrs this1 store1 this3 store3 this4 where
      s: "processFrame_branch config calib ext this store t ptr bdl pyrs = Some (this1, store1)"
         "addPoints config calib ext this1 store1 = Some (this3, store3)"
         "filterPoints config calib this3 = Some this4"
         "processFrame_emit config this4 store3 = Some (this5, store5)"
      unfolding processFrame_def
      by (simp split: option.splits prod.splits)
    from s(2) obtain this2 new_kpts0 where
      a: "addPoints_detect config ext this1 store1 = Some (this2, new_kpts0)"
         "addPoints_stereo config calib ext this2 store1 new_kpts0 = Some (this3, store3)"
      by (auto simp: addPoints_def split: option.splits)
    from b False s(1,3,4) a show ?thesis by blast
  qed
qed


lemma upto_as_upt: "[0..int n - 1] = map int [0..<n]"
proof (induction n)
  case 0
  then show ?case by simp
next
  case (Suc n)
  have "[0..int (Suc n) - 1] = [0..int n]" by simp
  also have "\<dots> = [0..int n - 1] @ [int n]" by (rule upto_rec2) simp
  finally show ?case using Suc by simp
qed

lemma patch_stack_pow:
  assumes "optical_flow_levels config \<le> 30"
  shows "patch_stack config ext pyr0 pos =
     map (\<lambda>l. PatchT ext (lvl pyr0 l) (vdiv pos (2 ^ l))) [0..<nat (optical_flow_levels config + 1)]"
proof -
  have "[0..optical_flow_levels config] = [0..int (nat (optical_flow_levels config + 1)) - 1]"
    by (cases "0 \<le> optical_flow_levels config + 1") simp_all
  then have u: "[0..optical_flow_levels config] = map int [0..<nat (optical_flow_levels config + 1)]"
    by (simp only: upto_as_upt)
  have "scale_of (int l) = 2 ^ l" if "l \<in> set [0..<nat (optical_flow_levels config + 1)]" for l
  proof -
    from that have "int l \<le> 30" using assms by auto
    then show ?thesis using scale_of_pow [of "int l"] by simp
  qed
  then show ?thesis
    unfolding patch_stack_def u by (simp add: comp_def)
qed

text \<open>
  C6. The invariant: the ids that have a patch stack are exactly the ids below
  \<^verbatim>\<open>last_keypoint_id\<close>. If it holds before a frame, the id counter does not wrap during
  the frame and there are at most 30 levels, then after \<^verbatim>\<open>processFrame\<close>: the counter has
  not decreased; every stack stored before is unchanged (nothing is modified or erased);
  the invariant holds again; and every id assigned in this frame (from the old counter
  up to the new one) is a keypoint of camera 0 with identity linear part, not detected by
  optical flow, whose stack is one patch per level \<open>l\<close> from 0 to
  \<^verbatim>\<open>optical_flow_levels\<close>, sampled from level \<open>l\<close> of camera 0's pyramid at the keypoint's
  position divided by \<open>2 ^ l\<close>.
\<close>

theorem processFrame_ids_and_patch_store:
  assumes inv: "\<forall>i. patches this i \<noteq> None \<longleftrightarrow> i < last_keypoint_id this"
    and nowrap: "\<forall>img m pts. unat (last_keypoint_id this)
                    + length (corners (detect_new_keypoints config ext img m pts)) < 2 ^ 64"
    and lv: "optical_flow_levels config \<le> 30"
    and run: "processFrame config calib ext this store t ptr = Some (this5, store5)"
  shows "last_keypoint_id this \<le> last_keypoint_id this5
     \<and> (\<forall>i. i < last_keypoint_id this \<longrightarrow> patches this5 i = patches this i)
     \<and> (\<forall>i. patches this5 i \<noteq> None \<longleftrightarrow> i < last_keypoint_id this5)
     \<and> (\<forall>i. last_keypoint_id this \<le> i \<and> i < last_keypoint_id this5 \<longrightarrow>
          (\<exists>pyrs tr k. pyramid this5 = Some pyrs \<and> transforms this5 = Some tr
             \<and> map_of (keypoints tr ! 0) i = Some k
             \<and> linear (pose k) = mat2_identity \<and> detected_by_opt_flow k = False
             \<and> patches this5 i =
                 Some (map (\<lambda>l. PatchT ext (lvl (pyrs ! 0) l) (vdiv (translation (pose k)) (2 ^ l)))
                         [0..<nat (optical_flow_levels config + 1)])))"
  using processFrame_cases [OF run]
proof
  assume "this5 = this \<and> store5 = store
          \<and> (\<exists>bundle. store ptr = Some bundle \<and> None \<in> set (img_data bundle))"
  then have "this5 = this" by simp
  with inv show ?thesis by auto
next
  assume "\<exists>bundle pyrs this1 store1 this2 new_kpts0 this3 store3 this4.
          store ptr = Some bundle \<and> None \<notin> set (img_data bundle)
        \<and> processFrame_branch config calib ext this store t ptr bundle pyrs = Some (this1, store1)
        \<and> addPoints_detect config ext this1 store1 = Some (this2, new_kpts0)
        \<and> addPoints_stereo config calib ext this2 store1 new_kpts0 = Some (this3, store3)
        \<and> filterPoints config calib this3 = Some this4
        \<and> processFrame_emit config this4 store3 = Some (this5, store5)"
  then obtain bdl pyrs this1 store1 this2 new_kpts0 this3 store3 this4 where
    br: "processFrame_branch config calib ext this store t ptr bdl pyrs = Some (this1, store1)"
    and det: "addPoints_detect config ext this1 store1 = Some (this2, new_kpts0)"
    and ste: "addPoints_stereo config calib ext this2 store1 new_kpts0 = Some (this3, store3)"
    and fil: "filterPoints config calib this3 = Some this4"
    and emi: "processFrame_emit config this4 store3 = Some (this5, store5)"
    by blast
  from processFrame_branch_frame [OF br] obtain kps old where
    this1: "this1 = this\<lparr>t_ns := t, old_pyramid := old, pyramid := Some pyrs,
            transforms := Some \<lparr>res_t_ns = t, keypoints = kps, input_images = Some ptr\<rparr>\<rparr>"
    by blast
  from addPoints_detect_frame [OF det] obtain tr pyrs1 img m pts ps1 kp1 lid1 where
    d: "transforms this1 = Some tr" "pyramid this1 = Some pyrs1"
       "addPoints_loop config ext (pyrs1 ! 0) (detect_new_keypoints config ext img m pts)
          [0..<length (corners (detect_new_keypoints config ext img m pts))]
          (patches this1, keypoints tr ! 0, [], last_keypoint_id this1)
        = Some (ps1, kp1, new_kpts0, lid1)"
       "keypoints tr \<noteq> []"
       "this2 = this1\<lparr>patches := ps1, last_keypoint_id := lid1,
                     transforms := Some (tr\<lparr>keypoints := (keypoints tr)[0 := kp1]\<rparr>)\<rparr>"
    by blast
  define kd where "kd = detect_new_keypoints config ext img m pts"
  define n where "n = length (corners kd)"
  have pyrs1: "pyrs1 = pyrs" using d(2) this1 by simp
  have loop: "addPoints_loop config ext (pyrs ! 0) kd [0..<n]
          (patches this, keypoints tr ! 0, [], last_keypoint_id this) = Some (ps1, kp1, new_kpts0, lid1)"
    using d(3) this1 pyrs1 by (simp add: kd_def n_def)
  have nw: "unat (last_keypoint_id this) + length [0..<n] < 2 ^ 64"
    using nowrap by (simp add: n_def kd_def)
  have below: "\<forall>i. patches this i \<noteq> None \<longrightarrow> unat i < unat (last_keypoint_id this)"
    using inv by (simp add: word_less_nat_alt)
  note P = addPoints_loop_props [OF loop nw below]
  have P1: "unat lid1 = unat (last_keypoint_id this) + n" using P by simp
  have P2: "ps1 i = patches this i" if "unat i < unat (last_keypoint_id this)" for i
    using P that by blast
  have P3: "unat i < unat lid1" if "ps1 i \<noteq> None" for i
    using P that by blast
  have P4: "ps1 (of_nat (unat (last_keypoint_id this) + m)) =
           Some (patch_stack config ext (pyrs ! 0) (corners kd ! m))
         \<and> map_of kp1 (of_nat (unat (last_keypoint_id this) + m)) =
             Some \<lparr>pose = \<lparr>linear = mat2_identity, translation = corners kd ! m\<rparr>,
                   descriptor = corner_descriptors kd ! m,
                   detected_by_opt_flow = False\<rparr>" if "m < n" for m
  proof -
    from that have "m < length [0..<n]" by simp
    with P have "ps1 (of_nat (unat (last_keypoint_id this) + m)) =
           Some (patch_stack config ext (pyrs ! 0) (corners kd ! ([0..<n] ! m)))
         \<and> map_of kp1 (of_nat (unat (last_keypoint_id this) + m)) =
             Some \<lparr>pose = \<lparr>linear = mat2_identity, translation = corners kd ! ([0..<n] ! m)\<rparr>,
                   descriptor = corner_descriptors kd ! ([0..<n] ! m),
                   detected_by_opt_flow = False\<rparr>" by blast
    moreover have "[0..<n] ! m = m" using that by simp
    ultimately show ?thesis by simp
  qed
  have tr2: "transforms this2 = Some (tr\<lparr>keypoints := (keypoints tr)[0 := kp1]\<rparr>)"
    using d(5) by simp
  from addPoints_stereo_frame [OF ste tr2] obtain tr3 where
    s3: "this3 = this2\<lparr>transforms := Some tr3\<rparr>"
        "keypoints tr3 ! 0 = keypoints (tr\<lparr>keypoints := (keypoints tr)[0 := kp1]\<rparr>) ! 0"
    by blast
  have tr3: "transforms this3 = Some tr3" using s3(1) by simp
  from filterPoints_frame [OF fil tr3] obtain tr4 where
    s4: "this4 = this3\<lparr>transforms := Some tr4\<rparr>" "keypoints tr4 ! 0 = keypoints tr3 ! 0"
    by blast
  note e = processFrame_emit_result [OF emi]
  have k0: "keypoints tr4 ! 0 = kp1" using s4(2) s3(2) d(4) by (cases "keypoints tr") simp_all
  have f5: "patches this5 = ps1" "last_keypoint_id this5 = lid1" "pyramid this5 = Some pyrs"
    "transforms this5 = Some tr4"
    using e s4(1) s3(1) d(5) this1 by simp_all
  have c1: "last_keypoint_id this \<le> last_keypoint_id this5"
    using P1 by (simp add: f5 word_le_nat_alt)
  have c2: "\<forall>i. i < last_keypoint_id this \<longrightarrow> patches this5 i = patches this i"
    using P2 by (simp add: f5 word_less_nat_alt)
  have new: "ps1 i = Some (patch_stack config ext (pyrs ! 0) (corners kd ! (unat i - unat (last_keypoint_id this))))
         \<and> map_of kp1 i =
             Some \<lparr>pose = \<lparr>linear = mat2_identity,
                     translation = corners kd ! (unat i - unat (last_keypoint_id this))\<rparr>,
                   descriptor = corner_descriptors kd ! (unat i - unat (last_keypoint_id this)),
                   detected_by_opt_flow = False\<rparr>"
    if "last_keypoint_id this \<le> i" "i < lid1" for i
  proof -
    define m where "m = unat i - unat (last_keypoint_id this)"
    have le: "unat (last_keypoint_id this) \<le> unat i" using that(1) by (simp add: word_le_nat_alt)
    have "unat i < unat (last_keypoint_id this) + n"
      using that(2) P1 by (simp add: word_less_nat_alt)
    then have m: "m < n" using le by (simp add: m_def)
    have "unat (last_keypoint_id this) + m = unat i" using le by (simp add: m_def)
    then have i: "of_nat (unat (last_keypoint_id this) + m) = i" by simp
    from P4 [OF m, unfolded i] show ?thesis unfolding m_def .
  qed
  have c3: "patches this5 i \<noteq> None \<longleftrightarrow> i < last_keypoint_id this5" for i
  proof
    assume "patches this5 i \<noteq> None"
    then have "ps1 i \<noteq> None" by (simp add: f5)
    from P3 [OF this] show "i < last_keypoint_id this5" by (simp add: f5 word_less_nat_alt)
  next
    assume a: "i < last_keypoint_id this5"
    show "patches this5 i \<noteq> None"
    proof (cases "i < last_keypoint_id this")
      case True
      with c2 inv show ?thesis by simp
    next
      case False
      then have "last_keypoint_id this \<le> i" by simp
      with new a show ?thesis by (simp add: f5)
    qed
  qed
  have c4: "\<exists>pyrs tr k. pyramid this5 = Some pyrs \<and> transforms this5 = Some tr
             \<and> map_of (keypoints tr ! 0) i = Some k
             \<and> linear (pose k) = mat2_identity \<and> detected_by_opt_flow k = False
             \<and> patches this5 i =
                 Some (map (\<lambda>l. PatchT ext (lvl (pyrs ! 0) l) (vdiv (translation (pose k)) (2 ^ l)))
                         [0..<nat (optical_flow_levels config + 1)])"
    if "last_keypoint_id this \<le> i \<and> i < last_keypoint_id this5" for i
  proof -
    from that new [of i] have n: "ps1 i = Some (patch_stack config ext (pyrs ! 0) (corners kd ! (unat i - unat (last_keypoint_id this))))"
      "map_of kp1 i =
             Some \<lparr>pose = \<lparr>linear = mat2_identity,
                     translation = corners kd ! (unat i - unat (last_keypoint_id this))\<rparr>,
                   descriptor = corner_descriptors kd ! (unat i - unat (last_keypoint_id this)),
                   detected_by_opt_flow = False\<rparr>"
      by (simp_all add: f5)
    show ?thesis
      using n f5 k0 by (simp add: patch_stack_pow [OF lv])
  qed
  from c1 c2 c3 c4 show ?thesis by blast
qed


lemma replicate_2_3: "replicate 2 x = [x, x]" "replicate 3 x = [x, x, x]"
  by (simp_all add: numeral_2_eq_2 numeral_3_eq_3)

lemmas processFrame_defs = replicate_2_3 processFrame_def processFrame_branch_def build_pyramids_def
  processFrame_emit_def filterPoints_def common_observations_def to_remove_def
  epipolar_residual_def dot_def id_through_int_def upt_rec

lemma demo_first_frame_ids:
  "map_option (\<lambda>r. (last_keypoint_id (fst r), frame_counter (fst r), output_queue (fst r))) demo_first_frame
     = Some (1, 1, Some [Some \<lparr>res_t_ns = 100,
          keypoints = [[(0, demo_keypoint 8 8 False)], [(0, demo_keypoint 7 8 True)]],
          input_images = Some 0\<rparr>])"
  by (simp add: demo_first_frame_def processFrame_defs addPoints_defs demo_defs vec_defs rig_defs)


theorem processFrame_ids_and_patch_store_witness:
  "\<exists>this5 store5. demo_first_frame = Some (this5, store5)
     \<and> last_keypoint_id this5 = 1 \<and> patches this5 0 \<noteq> None \<and> patches this5 1 = None"
proof -
  let ?init = "(PatchOpticalFlow_init demo_config demo_E)\<lparr>output_queue := Some []\<rparr>"
  have inv: "\<forall>i. patches ?init i \<noteq> None \<longleftrightarrow> i < last_keypoint_id ?init"
    by (simp add: PatchOpticalFlow_init_def)
  have nowrap: "\<forall>img m pts. unat (last_keypoint_id ?init)
      + length (corners (detect_new_keypoints demo_config demo_ext img m pts)) < 2 ^ 64"
    by (simp add: PatchOpticalFlow_init_def detect_new_keypoints_def demo_defs)
  have lv: "optical_flow_levels demo_config \<le> 30" by (simp add: demo_config_def)
  have "demo_first_frame \<noteq> None" using demo_first_frame_ids by auto
  then obtain this5 store5 where run: "demo_first_frame = Some (this5, store5)" by fastforce
  have l: "last_keypoint_id this5 = 1" using demo_first_frame_ids unfolding run by simp
  from processFrame_ids_and_patch_store [OF inv nowrap lv run [unfolded demo_first_frame_def]]
  have "\<forall>i. patches this5 i \<noteq> None \<longleftrightarrow> i < last_keypoint_id this5" by blast
  then have "patches this5 0 \<noteq> None \<longleftrightarrow> (0 :: 64 word) < 1"
    "patches this5 1 \<noteq> None \<longleftrightarrow> (1 :: 64 word) < 1" unfolding l by blast+
  then have "patches this5 0 \<noteq> None" "patches this5 1 = None" by simp_all
  with run l show ?thesis by blast
qed


subsection \<open>Missing frames\<close>

text \<open>
  C7. If a per-camera image payload of the bundle is null, \<^verbatim>\<open>processFrame\<close> returns with
  the tracker state and the bundles unchanged (so no keypoint map, pyramid, counter,
  patch or output queue has changed), and the worker goes on with the next round, from
  the state it had after draining the depth channel and stamping the bundle.
\<close>

theorem processFrame_missing_frame:
  assumes "store ptr = Some bundle" and "None \<in> set (img_data bundle)"
  shows "processFrame config calib ext this store t ptr = Some (this, store)
     \<and> processingLoop config calib ext ((queued, Some ptr) # rounds) (this, store) =
         processingLoop config calib ext rounds
           (this\<lparr>depth_guess := drain_depth_queue (depth_guess this) queued\<rparr>,
            store(ptr \<mapsto> bundle\<lparr>timing := timing bundle @ ''frames_received'' # []\<rparr>))"
proof
  show "processFrame config calib ext this store t ptr = Some (this, store)"
    using assms by (auto simp: processFrame_def)
next
  have "processFrame config calib ext
          (this\<lparr>depth_guess := drain_depth_queue (depth_guess this) queued\<rparr>)
          (store(ptr \<mapsto> bundle\<lparr>timing := timing bundle @ ''frames_received'' # []\<rparr>))
          (in_t_ns bundle) ptr
        = Some (this\<lparr>depth_guess := drain_depth_queue (depth_guess this) queued\<rparr>,
                store(ptr \<mapsto> bundle\<lparr>timing := timing bundle @ ''frames_received'' # []\<rparr>))"
    using assms(2) by (auto simp: processFrame_def)
  then show "processingLoop config calib ext ((queued, Some ptr) # rounds) (this, store) =
         processingLoop config calib ext rounds
           (this\<lparr>depth_guess := drain_depth_queue (depth_guess this) queued\<rparr>,
            store(ptr \<mapsto> bundle\<lparr>timing := timing bundle @ ''frames_received'' # []\<rparr>))"
    using assms(1) by (simp add: Let_def)
qed

theorem processFrame_missing_frame_witness:
  "processFrame demo_config (demo_calib 2) demo_ext (demo_tracker [[], []])
      [0 \<mapsto> demo_bundle [Some (demo_image 8), None]] 100 0
     = Some (demo_tracker [[], []], [0 \<mapsto> demo_bundle [Some (demo_image 8), None]])"
proof -
  have h1: "[0 \<mapsto> demo_bundle [Some (demo_image 8), None]] 0
      = Some (demo_bundle [Some (demo_image 8), None])" by simp
  have h2: "None \<in> set (img_data (demo_bundle [Some (demo_image 8), None]))"
    by (simp add: demo_bundle_def)
  from processFrame_missing_frame [where store = "[0 \<mapsto> demo_bundle [Some (demo_image 8), None]]"
      and ptr = 0, OF h1 h2]
  show ?thesis by blast
qed


subsection \<open>Frame skipping\<close>

lemma unat_skip_frames:
  assumes "1 \<le> k" "k < 2 ^ 31"
  shows "unat (word_of_int k :: 64 word) = nat k"
proof -
  have "k < 2147483648" using assms(2) by simp
  then have "nat k < 2147483648" by linarith
  then have "nat k < 18446744073709551616" by linarith
  then have lt: "nat k < 2 ^ LENGTH(64)" by simp
  have "0 \<le> k" using assms(1) by linarith
  then have w: "word_of_int k = (of_nat (nat k) :: 64 word)" by (rule word_of_int_nat)
  have "unat (of_nat (nat k) :: 64 word) = nat k mod 2 ^ LENGTH(64)"
    by (rule unat_of_nat)
  also have "\<dots> = nat k" using lt by (rule mod_less)
  finally show ?thesis unfolding w .
qed

lemma skip_frames_mod:
  assumes "1 \<le> k" "k < 2 ^ 31"
  shows "(word_of_int k :: 64 word) \<noteq> 0"
    and "(c :: 64 word) mod word_of_int k = 0 \<longleftrightarrow> unat c mod nat k = 0"
proof -
  have u: "unat (word_of_int k :: 64 word) = nat k" using assms by (rule unat_skip_frames)
  have "nat k \<noteq> 0" using assms(1) by linarith
  then have "unat (word_of_int k :: 64 word) \<noteq> 0" unfolding u .
  then show "(word_of_int k :: 64 word) \<noteq> 0" unfolding unat_0_iff .
  have "c mod word_of_int k = 0 \<longleftrightarrow> unat (c mod word_of_int k) = 0"
    unfolding unat_0_iff ..
  also have "\<dots> \<longleftrightarrow> unat c mod nat k = 0" unfolding unat_mod u ..
  finally show "c mod word_of_int k = 0 \<longleftrightarrow> unat c mod nat k = 0" .
qed

text \<open>
  C9. For a frame with all its image payloads, with \<^verbatim>\<open>optical_flow_skip_frames\<close> at least
  1: \<^verbatim>\<open>processFrame\<close> increments \<^verbatim>\<open>frame_counter\<close> by one, and the output queue afterwards
  is: still unattached, if it was; the queue with the frame's result appended, if
  \<^verbatim>\<open>frame_counter\<close> (its value before the increment) is a multiple of
  \<^verbatim>\<open>optical_flow_skip_frames\<close>; the queue unchanged, otherwise. In particular the frame
  processed at counter 0 is pushed when a queue is attached.
\<close>

theorem processFrame_emission:
  assumes "store ptr = Some bundle" and "None \<notin> set (img_data bundle)"
    and "1 \<le> optical_flow_skip_frames config" and "optical_flow_skip_frames config < 2 ^ 31"
    and "processFrame config calib ext this store t ptr = Some (this5, store5)"
  shows "frame_counter this5 = frame_counter this + 1
     \<and> (\<exists>tr. transforms this5 = Some tr \<and> res_t_ns tr = t \<and> input_images tr = Some ptr
          \<and> output_queue this5 =
               (case output_queue this of
                  None \<Rightarrow> None
                | Some q \<Rightarrow>
                    Some (if unat (frame_counter this) mod nat (optical_flow_skip_frames config) = 0
                          then q @ [Some tr] else q))
          \<and> (\<forall>q. output_queue this = Some q \<and> frame_counter this = 0
                 \<longrightarrow> output_queue this5 = Some (q @ [Some tr])))"
proof -
  from processFrame_cases [OF assms(5)] assms(1,2)
  obtain bdl pyrs this1 store1 this2 new_kpts0 this3 store3 this4 where
    br: "processFrame_branch config calib ext this store t ptr bdl pyrs = Some (this1, store1)"
    and det: "addPoints_detect config ext this1 store1 = Some (this2, new_kpts0)"
    and ste: "addPoints_stereo config calib ext this2 store1 new_kpts0 = Some (this3, store3)"
    and fil: "filterPoints config calib this3 = Some this4"
    and emi: "processFrame_emit config this4 store3 = Some (this5, store5)"
    by auto
  from processFrame_branch_frame [OF br] obtain kps old where
    this1: "this1 = this\<lparr>t_ns := t, old_pyramid := old, pyramid := Some pyrs,
            transforms := Some \<lparr>res_t_ns = t, keypoints = kps, input_images = Some ptr\<rparr>\<rparr>"
    by blast
  from addPoints_detect_frame [OF det] obtain tr ps1 kp1 lid1 where
    d: "transforms this1 = Some tr"
       "this2 = this1\<lparr>patches := ps1, last_keypoint_id := lid1,
                     transforms := Some (tr\<lparr>keypoints := (keypoints tr)[0 := kp1]\<rparr>)\<rparr>"
    by blast
  have tr: "res_t_ns tr = t" "input_images tr = Some ptr" using d(1) this1 by auto
  have tr2: "transforms this2 = Some (tr\<lparr>keypoints := (keypoints tr)[0 := kp1]\<rparr>)"
    using d(2) by simp
  from addPoints_stereo_frame [OF ste tr2] obtain tr3 where
    s3: "this3 = this2\<lparr>transforms := Some tr3\<rparr>"
        "input_images tr3 = input_images (tr\<lparr>keypoints := (keypoints tr)[0 := kp1]\<rparr>)"
        "res_t_ns tr3 = res_t_ns (tr\<lparr>keypoints := (keypoints tr)[0 := kp1]\<rparr>)"
    by blast
  have tr3: "transforms this3 = Some tr3" using s3(1) by simp
  from filterPoints_frame [OF fil tr3] obtain tr4 where
    s4: "this4 = this3\<lparr>transforms := Some tr4\<rparr>" "input_images tr4 = input_images tr3"
        "res_t_ns tr4 = res_t_ns tr3"
    by blast
  note e = processFrame_emit_result [OF emi]
  have f4: "frame_counter this4 = frame_counter this" "output_queue this4 = output_queue this"
    "transforms this4 = Some tr4"
    using s4(1) s3(1) d(2) this1 by simp_all
  have t4: "res_t_ns tr4 = t" "input_images tr4 = Some ptr" using s4 s3 tr by simp_all
  have c1: "frame_counter this5 = frame_counter this + 1" using e f4 by simp
  have t5: "transforms this5 = Some tr4" using e f4 by simp
  have q5: "output_queue this5 =
               (case output_queue this of
                  None \<Rightarrow> None
                | Some q \<Rightarrow>
                    Some (if unat (frame_counter this) mod nat (optical_flow_skip_frames config) = 0
                          then q @ [Some tr4] else q))"
    using e f4 skip_frames_mod(2) [OF assms(3,4), of "frame_counter this"]
    by (auto split: option.splits)
  have q0: "\<forall>q. output_queue this = Some q \<and> frame_counter this = 0
                 \<longrightarrow> output_queue this5 = Some (q @ [Some tr4])"
    using q5 by simp
  from c1 t5 t4 q5 q0 show ?thesis by blast
qed

theorem processFrame_emission_witness:
  "\<exists>this5 store5 tr. demo_first_frame = Some (this5, store5)
     \<and> frame_counter this5 = 1 \<and> transforms this5 = Some tr \<and> output_queue this5 = Some [Some tr]"
proof -
  let ?init = "(PatchOpticalFlow_init demo_config demo_E)\<lparr>output_queue := Some []\<rparr>"
  have h1: "demo_store 0 = Some (demo_bundle [Some (demo_image 8), Some (demo_image 7),
      Some (demo_image 7)])" by (simp add: demo_store_def)
  have h2: "None \<notin> set (img_data (demo_bundle [Some (demo_image 8), Some (demo_image 7),
      Some (demo_image 7)]))" by (simp add: demo_bundle_def)
  have h3: "1 \<le> optical_flow_skip_frames demo_config" by (simp add: demo_config_def)
  have h4: "optical_flow_skip_frames demo_config < 2 ^ 31" by (simp add: demo_config_def)
  have "demo_first_frame \<noteq> None" using demo_first_frame_ids by auto
  then obtain this5 store5 where run: "demo_first_frame = Some (this5, store5)" by fastforce
  from processFrame_emission [where store = demo_store and ptr = 0,
      OF h1 h2 h3 h4 run [unfolded demo_first_frame_def]]
  obtain tr where t: "frame_counter this5 = frame_counter ?init + 1" "transforms this5 = Some tr"
    "\<forall>q. output_queue ?init = Some q \<and> frame_counter ?init = 0
        \<longrightarrow> output_queue this5 = Some (q @ [Some tr])"
    by blast
  have "frame_counter this5 = 1" using t(1) by (simp add: PatchOpticalFlow_init_def)
  moreover have "output_queue this5 = Some [Some tr]"
    using t(3) by (simp add: PatchOpticalFlow_init_def)
  ultimately show ?thesis using run t(2) by blast
qed


subsection \<open>The depth guess\<close>

lemma drain_depth_queue_latest: "drain_depth_queue depth queued = last (depth # queued)"
  by (induction queued arbitrary: depth) simp_all

lemmas worker_defs = demo_worker_def demo_store2_def reported_depth_guess_def worker_depth_guess_def

text \<open>
  C8. The worker drains the depth channel before each frame and keeps the newest value
  (\<open>drain_depth_queue_latest\<close>), and \<^verbatim>\<open>trackPoints\<close> uses that value for its offsets. The
  value is stored for the UI by \<^verbatim>\<open>trackPoints\<close>, through \<^verbatim>\<open>transforms->input_images\<close>. On a
  monocular rig, with 1, 2, 3 pushed before the first frame, the worker's depth is 3 but
  the emitted frame reports the value the bundle came with, - 1; a stereo rig reports 3.
  When a second frame follows with depth 5, temporal tracking runs while \<^verbatim>\<open>transforms\<close> is
  still the previous result: the first frame's bundle then reports 5, and the second
  frame's bundle - 1.
\<close>

theorem depth_guess_not_reported_mono:
  "worker_depth_guess (demo_worker 1 [([1, 2, 3], Some 0)]) = Some 3
   \<and> reported_depth_guess (demo_worker 1 [([1, 2, 3], Some 0)]) = [Some (- 1)]
   \<and> reported_depth_guess (demo_worker 2 [([1, 2, 3], Some 0)]) = [Some 3]
   \<and> reported_depth_guess (demo_worker 1 [([1, 2, 3], Some 0), ([5], Some 1)])
        = [Some 5, Some (- 1)]"
  by (simp add: worker_defs processFrame_defs addPoints_defs demo_defs vec_defs rig_defs)

end
